theory Spec2Isabelle
  imports Complex_Main "HOL-Library.Sublist" "HOL-Library.Log_Nat"
begin

section \<open>Data model\<close>

text \<open>
  The two programs, \<^verbatim>\<open>face_recognition_service.py\<close> (training and recognition of
  one evaluated image) and \<^verbatim>\<open>realtime_face_recognition.py\<close> (recognition of a
  captured frame), share the gallery layout. A label is what \<^verbatim>\<open>student.get('labelId')\<close>
  returns: an integer, or \<^verbatim>\<open>None\<close> when the key is absent. The other fields of a
  training record are read with \<^verbatim>\<open>.get\<close> too and are strings or \<^verbatim>\<open>None\<close>.
  A floating-point number is the real number it denotes, and every floating-point
  operation rounds its exact result as the machine does (see below).
\<close>

type_synonym label = "int option"

text \<open>A face location \<^verbatim>\<open>(top, right, bottom, left)\<close>; a detected rectangle \<^verbatim>\<open>(x, y, w, h)\<close>.\<close>

type_synonym location = "int \<times> int \<times> int \<times> int"
type_synonym rect = "int \<times> int \<times> int \<times> int"

text \<open>The dictionary \<^verbatim>\<open>{'id': ..., 'name': ..., 'department': ...}\<close> stored per label.\<close>

record student =
  st_id :: "string option"
  st_name :: "string option"
  st_department :: "string option"

text \<open>One element of \<^verbatim>\<open>students_data\<close>.\<close>

record training_record =
  rec_imagePath :: "string option"
  rec_id :: "string option"
  rec_name :: "string option"
  rec_department :: "string option"
  rec_labelId :: label

text \<open>One element of \<^verbatim>\<open>results\<close> (service) or \<^verbatim>\<open>faces\<close> (frame recognition).\<close>

record match_result =
  labelId :: label
  name :: "string option"
  department :: "string option"
  confidence :: real
  location :: location

text \<open>The instance attributes of \<^verbatim>\<open>FaceRecognitionService\<close> and of \<^verbatim>\<open>RealTimeRecognition\<close>.\<close>

record ('e, 'm) service =
  recognizer :: "'m option"
  known_encodings :: "'e list"
  known_labels :: "label list"
  student_data :: "label \<rightharpoonup> student"

text \<open>The dictionary \<^verbatim>\<open>train_from_database\<close> returns.\<close>

record train_result =
  success :: bool
  message :: string
  trained_count :: "nat option"

text \<open>
  The dictionary \<^verbatim>\<open>recognize_face\<close> returns: \<^verbatim>\<open>{"success": False, "message": m}\<close> or
  \<^verbatim>\<open>{"success": True, "results": rs}\<close>; and the one \<^verbatim>\<open>recognize_frame\<close> serialises:
  \<^verbatim>\<open>{"success": False, "message": m}\<close> or \<^verbatim>\<open>{"success": True, "faces": rs}\<close>.
\<close>

datatype response = Failure string | Results "match_result list"

datatype frame_response = FrameFailure string | Faces "match_result list"

section \<open>Floating-point and 32-bit arithmetic\<close>

text \<open>
  The distances, the raw scores and the confidences are \<^verbatim>\<open>float64\<close> values. An operation
  gives the exact result rounded to the nearest number of 53 significant bits, a tie
  going to the even one. The exponent is not bounded: overflow, subnormal numbers,
  infinities and NaN are left out, none of which the subtractions and the division of
  the matchers produce from finite operands.
  \<^item> \<open>round_even\<close> rounds to the nearest integer, a tie to the even one;
  \<^item> \<open>exponent x\<close>, for a positive \<open>x\<close>, is the \<open>e\<close> with \<open>2 powi e \<le> x < 2 powi (e + 1)\<close>;
  \<^item> \<open>round64\<close> rounds to 53 significant bits;
  \<^item> \<open>float_sub\<close> and \<open>float_div\<close> are \<^verbatim>\<open>a - b\<close> and \<^verbatim>\<open>a / b\<close> on \<^verbatim>\<open>float64\<close>.
\<close>

definition round_even :: "real \<Rightarrow> int" where
  "round_even x =
     (let f = \<lfloor>x\<rfloor> in
      if x - of_int f < 1 / 2 then f
      else if 1 / 2 < x - of_int f then f + 1
      else if even f then f else f + 1)"

definition exponent :: "real \<Rightarrow> int" where
  "exponent x = (if 1 \<le> x then bitlen \<lfloor>x\<rfloor> - 1 else - bitlen (\<lceil>1 / x\<rceil> - 1))"

definition round64 :: "real \<Rightarrow> real" where
  "round64 x =
     (if x = 0 then 0
      else let q = 2 powi (exponent \<bar>x\<bar> - 52)
           in sgn x * (of_int (round_even (\<bar>x\<bar> / q)) * q))"

definition float_sub :: "real \<Rightarrow> real \<Rightarrow> real" where
  "float_sub a b = round64 (a - b)"

definition float_div :: "real \<Rightarrow> real \<Rightarrow> real" where
  "float_div a b = round64 (a / b)"

text \<open>
  The literal \<^verbatim>\<open>0.6\<close> of \<^verbatim>\<open>tolerance=0.6\<close> is the \<^verbatim>\<open>float64\<close> value nearest to 6/10, which
  lies just below it. The literals \<^verbatim>\<open>0.5\<close>, \<^verbatim>\<open>1\<close>, \<^verbatim>\<open>100\<close> and \<^verbatim>\<open>100.0\<close> are exact.
\<close>

definition tolerance_0_6 :: real where
  "tolerance_0_6 = 5404319552844595 / 2 ^ 53"

text \<open>
  The rectangles of \<^verbatim>\<open>detectMultiScale\<close> are rows of an \<^verbatim>\<open>int32\<close> array: a sum or a product of
  two of their components wraps around at 32 bits.
\<close>

definition wrap32 :: "int \<Rightarrow> int" where
  "wrap32 n = (n + 2 ^ 31) mod 2 ^ 32 - 2 ^ 31"

section \<open>The libraries\<close>

text \<open>
  The calls into \<^verbatim>\<open>face_recognition\<close>, \<^verbatim>\<open>cv2\<close> and \<^verbatim>\<open>os.path\<close> are parameters of the
  model. A call that can raise returns the exception's text on the left.
  \<^item> \<open>FACE_RECOGNITION_AVAILABLE\<close>: the module constant set by the import probe;
  \<^item> \<open>path_exists\<close>: \<^verbatim>\<open>os.path.exists\<close> on an image path;
  \<^item> \<open>train_encodings\<close>: \<^verbatim>\<open>load_image_file\<close> then \<^verbatim>\<open>face_encodings(image)\<close>;
  \<^item> \<open>locate_encode\<close>: \<^verbatim>\<open>load_image_file\<close>, \<^verbatim>\<open>face_locations\<close> and
    \<^verbatim>\<open>face_encodings(image, face_locations)\<close>, as the list the loop zips;
  \<^item> \<open>distance\<close>: the distance of two encodings that \<^verbatim>\<open>face_distance\<close> computes;
  \<^item> \<open>cv2_face\<close>: whether \<^verbatim>\<open>from cv2 import face\<close> succeeds;
  \<^item> \<open>imread\<close>: \<^verbatim>\<open>cv2.imread\<close>, \<open>None\<close> for an unreadable image;
  \<^item> \<open>detectMultiScale\<close>: the grey conversion, the cascade of the service and its
    \<^verbatim>\<open>detectMultiScale(gray, 1.1, 5)\<close>;
  \<^item> \<open>rt_cascade_found\<close>, \<open>rt_detectMultiScale\<close>: the same for the frame recogniser,
    whose cascade search differs and has a result of its own;
  \<^item> \<open>face_roi\<close>: the crop \<^verbatim>\<open>gray[y:y+h, x:x+w]\<close> resized to 200 x 200;
  \<^item> \<open>lbph_train\<close>: a fresh LBPH recogniser trained on patches and labels;
  \<^item> \<open>predict\<close>: \<^verbatim>\<open>recognizer.predict\<close>, a label and a raw score.
\<close>

record ('e, 'i, 'p, 'm) library =
  FACE_RECOGNITION_AVAILABLE :: bool
  path_exists :: "string \<Rightarrow> bool"
  train_encodings :: "string \<Rightarrow> string + 'e list"
  locate_encode :: "string \<Rightarrow> string + ('e \<times> location) list"
  distance :: "'e \<Rightarrow> 'e \<Rightarrow> real"
  cv2_face :: bool
  imread :: "string \<Rightarrow> 'i option"
  detectMultiScale :: "'i \<Rightarrow> string + rect list"
  rt_cascade_found :: bool
  rt_detectMultiScale :: "'i \<Rightarrow> string + rect list"
  face_roi :: "'i \<Rightarrow> rect \<Rightarrow> string + 'p"
  lbph_train :: "'p list \<Rightarrow> label list \<Rightarrow> string + 'm"
  predict :: "'m \<Rightarrow> 'p \<Rightarrow> string + (int \<times> real)"

text \<open>\<^verbatim>\<open>face_recognition.face_distance\<close>: the distance of every known encoding to the query.\<close>

definition face_distance :: "('e, 'i, 'p, 'm) library \<Rightarrow> 'e list \<Rightarrow> 'e \<Rightarrow> real list" where
  "face_distance L known face_encoding = map (\<lambda>k. distance L k face_encoding) known"

text \<open>
  Modelled from the spec: \<^verbatim>\<open>face_recognition.compare_faces\<close> is a library function; the
  spec gives its meaning as the acceptance band, the distance being at most the tolerance.
\<close>

definition compare_faces :: "('e, 'i, 'p, 'm) library \<Rightarrow> 'e list \<Rightarrow> 'e \<Rightarrow> real \<Rightarrow> bool list" where
  "compare_faces L known face_encoding tolerance =
     map (\<lambda>d. d \<le> tolerance) (face_distance L known face_encoding)"

text \<open>\<^verbatim>\<open>np.argmin\<close>: the index of the first occurrence of the least element.\<close>

fun argmin :: "real list \<Rightarrow> nat" where
  "argmin [] = 0"
| "argmin [x] = 0"
| "argmin (x # xs) = (let j = argmin xs in if x \<le> xs ! j then 0 else Suc j)"

section \<open>The embedding matcher\<close>

definition unknown_result :: "real \<Rightarrow> location \<Rightarrow> match_result" where
  "unknown_result c loc =
     \<lparr>labelId = Some (- 1), name = Some ''Unknown'', department = Some '''',
      confidence = c, location = loc\<rparr>"

text \<open>
  The body of the loop of \<^verbatim>\<open>_recognize_with_face_recognition\<close> in the service.
  \<^verbatim>\<open>np.argmin\<close> raises on an empty array and \<^verbatim>\<open>known_labels[best_match_index]\<close>
  raises beyond the list's end; \<^verbatim>\<open>if student:\<close> holds for every stored dictionary,
  which has three keys.
\<close>

definition match_face :: "('e, 'i, 'p, 'm) library \<Rightarrow> ('e, 'm) service \<Rightarrow> 'e \<Rightarrow> location
    \<Rightarrow> string + match_result" where
  "match_face L s face_encoding face_location =
     (if known_encodings s = [] then Inl ''attempt to get argmin of an empty sequence''
      else
        let matches = compare_faces L (known_encodings s) face_encoding tolerance_0_6;
            face_distances = face_distance L (known_encodings s) face_encoding;
            best_match_index = argmin face_distances;
            conf = float_sub 1 (face_distances ! best_match_index)
        in if matches ! best_match_index \<and> conf > 1 / 2 then
             (if best_match_index < length (known_labels s) then
                (let label_id = known_labels s ! best_match_index in
                 case student_data s label_id of
                   Some st \<Rightarrow>
                     Inr \<lparr>labelId = label_id, name = st_name st, department = st_department st,
                          confidence = conf, location = face_location\<rparr>
                 | None \<Rightarrow> Inr (unknown_result conf face_location))
              else Inl ''list index out of range'')
           else Inr (unknown_result conf face_location))"

text \<open>
  The same loop body in the frame recogniser: the label goes through \<^verbatim>\<open>int(label_id)\<close>,
  which raises on \<^verbatim>\<open>None\<close>, and a label without a record keeps its number with the
  defaults \<^verbatim>\<open>'Unknown'\<close> and \<^verbatim>\<open>''\<close>.
\<close>

definition rt_match_face :: "('e, 'i, 'p, 'm) library \<Rightarrow> ('e, 'm) service \<Rightarrow> 'e \<Rightarrow> location
    \<Rightarrow> string + match_result" where
  "rt_match_face L s face_encoding face_location =
     (if known_encodings s = [] then Inl ''attempt to get argmin of an empty sequence''
      else
        let matches = compare_faces L (known_encodings s) face_encoding tolerance_0_6;
            face_distances = face_distance L (known_encodings s) face_encoding;
            best_match_index = argmin face_distances;
            conf = float_sub 1 (face_distances ! best_match_index)
        in if matches ! best_match_index \<and> conf > 1 / 2 then
             (if best_match_index < length (known_labels s) then
                (case known_labels s ! best_match_index of
                   None \<Rightarrow>
                     Inl (''int() argument must be a string, a bytes-like object or a real ''
                          @ ''number, not '' @ [CHR 0x27] @ ''NoneType'' @ [CHR 0x27])
                 | Some l \<Rightarrow>
                     (case student_data s (Some l) of
                        Some st \<Rightarrow>
                          Inr \<lparr>labelId = Some l, name = st_name st, department = st_department st,
                               confidence = conf, location = face_location\<rparr>
                      | None \<Rightarrow>
                          Inr \<lparr>labelId = Some l, name = Some ''Unknown'', department = Some '''',
                               confidence = conf, location = face_location\<rparr>))
              else Inl ''list index out of range'')
           else Inr (unknown_result conf face_location))"

text \<open>The loop over the located faces; an exception in one face leaves the loop.\<close>

fun match_faces :: "('e, 'i, 'p, 'm) library \<Rightarrow> ('e, 'm) service \<Rightarrow> ('e \<times> location) list
    \<Rightarrow> string + match_result list" where
  "match_faces L s [] = Inr []"
| "match_faces L s ((face_encoding, face_location) # rest) =
     (case match_face L s face_encoding face_location of
        Inl e \<Rightarrow> Inl e
      | Inr r \<Rightarrow> (case match_faces L s rest of Inl e \<Rightarrow> Inl e | Inr rs \<Rightarrow> Inr (r # rs)))"

fun rt_match_faces :: "('e, 'i, 'p, 'm) library \<Rightarrow> ('e, 'm) service \<Rightarrow> ('e \<times> location) list
    \<Rightarrow> string + match_result list" where
  "rt_match_faces L s [] = Inr []"
| "rt_match_faces L s ((face_encoding, face_location) # rest) =
     (case rt_match_face L s face_encoding face_location of
        Inl e \<Rightarrow> Inl e
      | Inr r \<Rightarrow> (case rt_match_faces L s rest of Inl e \<Rightarrow> Inl e | Inr rs \<Rightarrow> Inr (r # rs)))"

definition recognize_with_face_recognition :: "('e, 'i, 'p, 'm) library \<Rightarrow> ('e, 'm) service
    \<Rightarrow> string \<Rightarrow> response" where
  "recognize_with_face_recognition L s image_path =
     (case locate_encode L image_path of
        Inl e \<Rightarrow> Failure (''Recognition error: '' @ e)
      | Inr face_encodings \<Rightarrow>
          if length face_encodings = 0 then Failure ''No face detected''
          else (case match_faces L s face_encodings of
                  Inl e \<Rightarrow> Failure (''Recognition error: '' @ e)
                | Inr results \<Rightarrow> Results results))"

definition rt_recognize_with_face_recognition :: "('e, 'i, 'p, 'm) library \<Rightarrow> ('e, 'm) service
    \<Rightarrow> string \<Rightarrow> frame_response" where
  "rt_recognize_with_face_recognition L s frame_path =
     (case locate_encode L frame_path of
        Inl e \<Rightarrow> FrameFailure e
      | Inr face_encodings \<Rightarrow>
          if length face_encodings = 0 then Faces []
          else (case rt_match_faces L s face_encodings of
                  Inl e \<Rightarrow> FrameFailure e
                | Inr results \<Rightarrow> Faces results))"

section \<open>The classifier matcher\<close>

text \<open>
  The body of the loop of \<^verbatim>\<open>_recognize_with_opencv\<close>: the patch is cut, the
  recogniser predicts a label and a raw score, and the score becomes
  \<^verbatim>\<open>(100 - confidence) / 100.0\<close>, a subtraction and a division on \<^verbatim>\<open>float64\<close>. The sums
  \<^verbatim>\<open>x+w\<close> and \<^verbatim>\<open>y+h\<close> of the location are sums on \<^verbatim>\<open>int32\<close>. Calling \<^verbatim>\<open>predict\<close> on no
  recogniser raises.
  The service and the frame recogniser agree on this body.
\<close>

definition cv_match_face :: "('e, 'i, 'p, 'm) library \<Rightarrow> ('e, 'm) service \<Rightarrow> 'i \<Rightarrow> rect
    \<Rightarrow> string + match_result" where
  "cv_match_face L s gray r =
     (case r of (x, y, w, h) \<Rightarrow>
        (case face_roi L gray (x, y, w, h) of
           Inl e \<Rightarrow> Inl e
         | Inr roi \<Rightarrow>
             (case recognizer s of
                None \<Rightarrow>
                  Inl ([CHR 0x27] @ ''NoneType'' @ [CHR 0x27] @ '' object has no attribute ''
                       @ [CHR 0x27] @ ''predict'' @ [CHR 0x27])
              | Some model \<Rightarrow>
                  (case predict L model roi of
                     Inl e \<Rightarrow> Inl e
                   | Inr (label_id, raw) \<Rightarrow>
                       (let confidence_score = float_div (float_sub 100 raw) 100 in
                        if confidence_score > 1 / 2 then
                          (case student_data s (Some label_id) of
                             Some st \<Rightarrow>
                               Inr \<lparr>labelId = Some label_id, name = st_name st,
                                    department = st_department st,
                                    confidence = confidence_score,
                                    location = (y, wrap32 (x + w), wrap32 (y + h), x)\<rparr>
                           | None \<Rightarrow> Inr (unknown_result confidence_score (y, wrap32 (x + w), wrap32 (y + h), x)))
                        else Inr (unknown_result confidence_score (y, wrap32 (x + w), wrap32 (y + h), x)))))))"

fun cv_match_faces :: "('e, 'i, 'p, 'm) library \<Rightarrow> ('e, 'm) service \<Rightarrow> 'i \<Rightarrow> rect list
    \<Rightarrow> string + match_result list" where
  "cv_match_faces L s gray [] = Inr []"
| "cv_match_faces L s gray (r # rest) =
     (case cv_match_face L s gray r of
        Inl e \<Rightarrow> Inl e
      | Inr res \<Rightarrow>
          (case cv_match_faces L s gray rest of Inl e \<Rightarrow> Inl e | Inr rs \<Rightarrow> Inr (res # rs)))"

definition recognize_with_opencv :: "('e, 'i, 'p, 'm) library \<Rightarrow> ('e, 'm) service
    \<Rightarrow> string \<Rightarrow> response" where
  "recognize_with_opencv L s image_path =
     (case imread L image_path of
        None \<Rightarrow> Failure ''Could not load image''
      | Some img \<Rightarrow>
          (case detectMultiScale L img of
             Inl e \<Rightarrow> Failure (''Recognition error: '' @ e)
           | Inr faces \<Rightarrow>
               if length faces = 0 then Failure ''No face detected''
               else (case cv_match_faces L s img faces of
                       Inl e \<Rightarrow> Failure (''Recognition error: '' @ e)
                     | Inr results \<Rightarrow> Results results)))"

definition rt_recognize_with_opencv :: "('e, 'i, 'p, 'm) library \<Rightarrow> ('e, 'm) service
    \<Rightarrow> string \<Rightarrow> frame_response" where
  "rt_recognize_with_opencv L s frame_path =
     (case imread L frame_path of
        None \<Rightarrow> FrameFailure ''Could not load image''
      | Some img \<Rightarrow>
          if \<not> rt_cascade_found L then FrameFailure ''Cascade not found''
          else (case rt_detectMultiScale L img of
                  Inl e \<Rightarrow> FrameFailure e
                | Inr faces \<Rightarrow>
                    if length faces = 0 then Faces []
                    else (case cv_match_faces L s img faces of
                            Inl e \<Rightarrow> FrameFailure e
                          | Inr results \<Rightarrow> Faces results)))"

section \<open>Backend selection and the public recognition calls\<close>

text \<open>
  The branch \<^verbatim>\<open>recognize_face\<close> and \<^verbatim>\<open>recognize_frame\<close> take: the \<^verbatim>\<open>if\<close> chain of the
  source, named so that the backend a call reaches can be stated.
\<close>

datatype route = NotFound | Embedding | Classifier | NoModel

definition recognize_route :: "('e, 'i, 'p, 'm) library \<Rightarrow> ('e, 'm) service \<Rightarrow> string \<Rightarrow> route" where
  "recognize_route L s image_path =
     (if \<not> path_exists L image_path then NotFound
      else if FACE_RECOGNITION_AVAILABLE L \<and> known_encodings s \<noteq> [] then Embedding
      else if recognizer s \<noteq> None then Classifier
      else NoModel)"

definition recognize_face :: "('e, 'i, 'p, 'm) library \<Rightarrow> ('e, 'm) service \<Rightarrow> string \<Rightarrow> response" where
  "recognize_face L s image_path =
     (case recognize_route L s image_path of
        NotFound \<Rightarrow> Failure ''Image file not found''
      | Embedding \<Rightarrow> recognize_with_face_recognition L s image_path
      | Classifier \<Rightarrow> recognize_with_opencv L s image_path
      | NoModel \<Rightarrow> Failure ''Model not trained'')"

definition recognize_frame :: "('e, 'i, 'p, 'm) library \<Rightarrow> ('e, 'm) service \<Rightarrow> string
    \<Rightarrow> frame_response" where
  "recognize_frame L s frame_path =
     (case recognize_route L s frame_path of
        NotFound \<Rightarrow> FrameFailure ''Frame not found''
      | Embedding \<Rightarrow> rt_recognize_with_face_recognition L s frame_path
      | Classifier \<Rightarrow> rt_recognize_with_opencv L s frame_path
      | NoModel \<Rightarrow> FrameFailure ''Model not loaded'')"

text \<open>The attributes \<^verbatim>\<open>__init__\<close> sets, before any loading.\<close>

definition init_service :: "('e, 'm) service" where
  "init_service =
     \<lparr>recognizer = None, known_encodings = [], known_labels = [], student_data = Map.empty\<rparr>"

section \<open>The gallery files\<close>

text \<open>
  The model directory holds \<^verbatim>\<open>face_encodings.pkl\<close>, \<^verbatim>\<open>labels.pkl\<close> and
  \<^verbatim>\<open>face_recognizer.pkl\<close>. A file is absent, holds something that does not load
  (a write that stopped half way), or holds data. \<^verbatim>\<open>labels.pkl\<close> is written by both
  training paths, in two layouts.
\<close>

datatype 'a disk_file = Absent | Corrupt | Data 'a

datatype labels_pickle =
  EmbeddingLabels "label list" "label \<rightharpoonup> student"
| ClassifierLabels "label \<rightharpoonup> student"

record ('e, 'm) store =
  encodings_file :: "'e list disk_file"
  labels_file :: "labels_pickle disk_file"
  model_file :: "'m disk_file"

text \<open>
  What happens to one write: it succeeds, \<^verbatim>\<open>open\<close> raises and the file stays as it
  was, or the dump raises and leaves an unreadable file. The text is the exception's.
\<close>

datatype write_outcome = Written | OpenFails string | DumpFails string

definition write_file :: "write_outcome \<Rightarrow> 'a \<Rightarrow> string + 'a disk_file" where
  "write_file w v =
     (case w of Written \<Rightarrow> Inr (Data v) | OpenFails e \<Rightarrow> Inl e | DumpFails e \<Rightarrow> Inl e)"

definition after_failed_write :: "write_outcome \<Rightarrow> 'a disk_file \<Rightarrow> 'a disk_file" where
  "after_failed_write w old = (case w of DumpFails e \<Rightarrow> Corrupt | _ \<Rightarrow> old)"

text \<open>
  \<^verbatim>\<open>_save_model\<close>: the encodings file, then the labels file, each opened for writing in
  place. An exception ends the function; its text goes to the error stream only.
\<close>

definition save_model :: "write_outcome \<times> write_outcome \<Rightarrow> ('e, 'm) service \<Rightarrow> ('e, 'm) store
    \<Rightarrow> ('e, 'm) store" where
  "save_model ws s fs =
     (case write_file (fst ws) (known_encodings s) of
        Inl e \<Rightarrow> fs\<lparr>encodings_file := after_failed_write (fst ws) (encodings_file fs)\<rparr>
      | Inr f1 \<Rightarrow>
          (let fs1 = fs\<lparr>encodings_file := f1\<rparr> in
           case write_file (snd ws) (EmbeddingLabels (known_labels s) (student_data s)) of
             Inl e \<Rightarrow> fs1\<lparr>labels_file := after_failed_write (snd ws) (labels_file fs1)\<rparr>
           | Inr f2 \<Rightarrow> fs1\<lparr>labels_file := f2\<rparr>))"

text \<open>
  \<^verbatim>\<open>_load_model\<close>: both files must exist. The encodings are assigned before the labels
  file is read, so an unreadable labels file leaves them assigned. A labels file in the
  classifier's layout has neither key, and \<^verbatim>\<open>data.get\<close> gives the defaults.
\<close>

definition load_model :: "('e, 'm) service \<Rightarrow> ('e, 'm) store \<Rightarrow> bool \<times> ('e, 'm) service" where
  "load_model s fs =
     (if encodings_file fs \<noteq> Absent \<and> labels_file fs \<noteq> Absent then
        (case encodings_file fs of
           Data encs \<Rightarrow>
             (let s1 = s\<lparr>known_encodings := encs\<rparr> in
              case labels_file fs of
                Data (EmbeddingLabels ls sd) \<Rightarrow> (True, s1\<lparr>known_labels := ls, student_data := sd\<rparr>)
              | Data (ClassifierLabels m) \<Rightarrow>
                  (True, s1\<lparr>known_labels := [], student_data := Map.empty\<rparr>)
              | _ \<Rightarrow> (False, s1))
         | _ \<Rightarrow> (False, s))
      else (False, s))"

text \<open>
  \<^verbatim>\<open>RealTimeRecognition.__init__\<close> with its \<^verbatim>\<open>load_model\<close>, which has no handler: an
  unreadable file ends the constructor with the exception. Without the embedding
  library the recogniser is read from the model file, and the labels file becomes
  \<^verbatim>\<open>student_data\<close> as it is; in the embedding layout its keys are two strings, so no
  label is among them.
\<close>

definition rt_load_model :: "('e, 'i, 'p, 'm) library \<Rightarrow> ('e, 'm) store \<Rightarrow> string + ('e, 'm) service" where
  "rt_load_model L fs =
     (if FACE_RECOGNITION_AVAILABLE L then
        (if encodings_file fs \<noteq> Absent \<and> labels_file fs \<noteq> Absent then
           (case encodings_file fs of
              Data encs \<Rightarrow>
                (case labels_file fs of
                   Data (EmbeddingLabels ls sd) \<Rightarrow>
                     Inr (init_service\<lparr>known_encodings := encs, known_labels := ls,
                            student_data := sd\<rparr>)
                 | Data (ClassifierLabels m) \<Rightarrow> Inr (init_service\<lparr>known_encodings := encs\<rparr>)
                 | _ \<Rightarrow> Inl ''pickle data was truncated'')
            | _ \<Rightarrow> Inl ''pickle data was truncated'')
         else Inr init_service)
      else
        (if model_file fs \<noteq> Absent \<and> labels_file fs \<noteq> Absent then
           (if cv2_face L then
              (case model_file fs of
                 Data model \<Rightarrow>
                   (case labels_file fs of
                      Data (ClassifierLabels m) \<Rightarrow>
                        Inr (init_service\<lparr>recognizer := Some model, student_data := m\<rparr>)
                    | Data (EmbeddingLabels ls sd) \<Rightarrow> Inr (init_service\<lparr>recognizer := Some model\<rparr>)
                    | _ \<Rightarrow> Inl ''pickle data was truncated'')
               | _ \<Rightarrow> Inl ''could not read the model file'')
            else Inr init_service)
         else Inr init_service))"

section \<open>Training\<close>

text \<open>\<^verbatim>\<open>_normalize_path\<close>: backslashes become slashes; a false value is returned as it is.\<close>

definition normalize_path :: "string option \<Rightarrow> string option" where
  "normalize_path path_str =
     (case path_str of
        None \<Rightarrow> None
      | Some p \<Rightarrow> if p = [] then Some p
                  else Some (map (\<lambda>c. if c = CHR 0x5C then CHR ''/'' else c) p))"

text \<open>The decimal digits of a count, as an f-string prints it.\<close>

fun str_nat :: "nat \<Rightarrow> string" where
  "str_nat n =
     (if n < 10 then [char_of (48 + n)]
      else str_nat (n div 10) @ [char_of (48 + n mod 10)])"

text \<open>
  One pass of the loop of \<^verbatim>\<open>_train_with_face_recognition\<close> over a record: the state
  and \<^verbatim>\<open>trained_count\<close> after it. A missing path, an exception of the library and an
  image without a face all go on to the next record.
\<close>

definition enroll_fr :: "('e, 'i, 'p, 'm) library \<Rightarrow> training_record
    \<Rightarrow> ('e, 'm) service \<times> nat \<Rightarrow> ('e, 'm) service \<times> nat" where
  "enroll_fr L st acc =
     (case acc of (s, count) \<Rightarrow>
        (case normalize_path (rec_imagePath st) of
           None \<Rightarrow> (s, count)
         | Some image_path \<Rightarrow>
             if image_path = [] then (s, count)
             else if \<not> path_exists L image_path then (s, count)
             else (case train_encodings L image_path of
                     Inl e \<Rightarrow> (s, count)
                   | Inr encodings \<Rightarrow>
                       if length encodings > 0 then
                         (s\<lparr>known_encodings := known_encodings s @ [encodings ! 0],
                            known_labels := known_labels s @ [rec_labelId st],
                            student_data := (student_data s)(rec_labelId st \<mapsto>
                              \<lparr>st_id = rec_id st, st_name = rec_name st,
                               st_department = rec_department st\<rparr>)\<rparr>,
                          count + 1)
                       else (s, count))))"

fun train_loop_fr :: "('e, 'i, 'p, 'm) library \<Rightarrow> training_record list
    \<Rightarrow> ('e, 'm) service \<times> nat \<Rightarrow> ('e, 'm) service \<times> nat" where
  "train_loop_fr L [] acc = acc"
| "train_loop_fr L (st # rest) acc = train_loop_fr L rest (enroll_fr L st acc)"

definition train_with_face_recognition :: "('e, 'i, 'p, 'm) library
    \<Rightarrow> write_outcome \<times> write_outcome \<Rightarrow> ('e, 'm) service \<Rightarrow> ('e, 'm) store
    \<Rightarrow> training_record list \<Rightarrow> train_result \<times> ('e, 'm) service \<times> ('e, 'm) store" where
  "train_with_face_recognition L ws s fs students_data =
     (case train_loop_fr L students_data (s, 0) of (s', count) \<Rightarrow>
        if count = 0 then
          (\<lparr>success = False, message = ''No faces found in training images'',
            trained_count = None\<rparr>, s', fs)
        else
          (\<lparr>success = True, message = ''Trained '' @ str_nat count @ '' faces successfully'',
            trained_count = Some count\<rparr>, s', save_model ws s' fs))"

text \<open>
  \<^verbatim>\<open>max(faces, key=lambda x: x[2] * x[3])\<close>: the key is the product of width and height on
  \<^verbatim>\<open>int32\<close>, and \<^verbatim>\<open>max\<close> keeps the first element whose key no later one exceeds.
\<close>

definition area :: "rect \<Rightarrow> int" where
  "area r = (case r of (x, y, w, h) \<Rightarrow> wrap32 (w * h))"

fun max_area :: "rect \<Rightarrow> rect list \<Rightarrow> rect" where
  "max_area best [] = best"
| "max_area best (f # fs) = (if area best < area f then max_area f fs else max_area best fs)"

text \<open>
  One pass of the loop of \<^verbatim>\<open>_train_with_opencv\<close>: the lists \<^verbatim>\<open>images\<close> and \<^verbatim>\<open>labels\<close> and
  the dictionary \<^verbatim>\<open>label_to_student\<close> after it.
\<close>

definition enroll_cv :: "('e, 'i, 'p, 'm) library \<Rightarrow> training_record
    \<Rightarrow> 'p list \<times> label list \<times> (label \<rightharpoonup> student)
    \<Rightarrow> 'p list \<times> label list \<times> (label \<rightharpoonup> student)" where
  "enroll_cv L st acc =
     (case acc of (images, labels, label_to_student) \<Rightarrow>
        (case normalize_path (rec_imagePath st) of
           None \<Rightarrow> acc
         | Some image_path \<Rightarrow>
             if image_path = [] then acc
             else if \<not> path_exists L image_path then acc
             else (case imread L image_path of
                     None \<Rightarrow> acc
                   | Some img \<Rightarrow>
                       (case detectMultiScale L img of
                          Inl e \<Rightarrow> acc
                        | Inr faces \<Rightarrow>
                            (case faces of
                               [] \<Rightarrow> acc
                             | f # fs \<Rightarrow>
                                 (let largest_face = max_area f fs in
                                  case face_roi L img largest_face of
                                    Inl e \<Rightarrow> acc
                                  | Inr roi \<Rightarrow>
                                      (images @ [roi], labels @ [rec_labelId st],
                                       label_to_student(rec_labelId st \<mapsto>
                                         \<lparr>st_id = rec_id st, st_name = rec_name st,
                                          st_department = rec_department st\<rparr>))))))))"

fun train_loop_cv :: "('e, 'i, 'p, 'm) library \<Rightarrow> training_record list
    \<Rightarrow> 'p list \<times> label list \<times> (label \<rightharpoonup> student)
    \<Rightarrow> 'p list \<times> label list \<times> (label \<rightharpoonup> student)" where
  "train_loop_cv L [] acc = acc"
| "train_loop_cv L (st # rest) acc = train_loop_cv L rest (enroll_cv L st acc)"

definition failed :: "string \<Rightarrow> train_result" where
  "failed m = \<lparr>success = False, message = m, trained_count = None\<rparr>"

text \<open>
  \<^verbatim>\<open>_train_with_opencv\<close>. The first write is \<^verbatim>\<open>recognizer.save\<close> of the model file, the
  second the dump of \<^verbatim>\<open>label_to_student\<close> into the labels file. Every exception after
  the loop is caught by the function's own handler.
\<close>

definition train_with_opencv :: "('e, 'i, 'p, 'm) library
    \<Rightarrow> write_outcome \<times> write_outcome \<Rightarrow> ('e, 'm) service \<Rightarrow> ('e, 'm) store
    \<Rightarrow> training_record list \<Rightarrow> train_result \<times> ('e, 'm) service \<times> ('e, 'm) store" where
  "train_with_opencv L ws s fs students_data =
     (if \<not> cv2_face L then
        (failed (''OpenCV face module not available. Please install opencv-contrib-python: ''
           @ ''pip install opencv-contrib-python''), s, fs)
      else
        (case train_loop_cv L students_data ([], [], Map.empty) of
           (images, labels, label_to_student) \<Rightarrow>
             if length images = 0 then (failed ''No faces found in training images'', s, fs)
             else
               (case lbph_train L images labels of
                  Inl e \<Rightarrow> (failed (''OpenCV training error: '' @ e), s, fs)
                | Inr model \<Rightarrow>
                    (case write_file (fst ws) model of
                       Inl e \<Rightarrow>
                         (failed (''OpenCV training error: '' @ e), s,
                          fs\<lparr>model_file := after_failed_write (fst ws) (model_file fs)\<rparr>)
                     | Inr f1 \<Rightarrow>
                         (let fs1 = fs\<lparr>model_file := f1\<rparr>;
                              s1 = s\<lparr>recognizer := Some model, student_data := label_to_student\<rparr>
                          in case write_file (snd ws) (ClassifierLabels label_to_student) of
                               Inl e \<Rightarrow>
                                 (failed (''OpenCV training error: '' @ e), s1,
                                  fs1\<lparr>labels_file := after_failed_write (snd ws) (labels_file fs1)\<rparr>)
                             | Inr f2 \<Rightarrow>
                                 (\<lparr>success = True,
                                   message = ''Trained '' @ str_nat (length images)
                                     @ '' faces successfully'',
                                   trained_count = Some (length images)\<rparr>,
                                  s1, fs1\<lparr>labels_file := f2\<rparr>))))))"

text \<open>\<^verbatim>\<open>str.lower\<close> on ASCII letters, and the test \<^verbatim>\<open>needle in text\<close>.\<close>

definition lower :: "string \<Rightarrow> string" where
  "lower t = map (\<lambda>c. if 65 \<le> (of_char c :: nat) \<and> (of_char c :: nat) \<le> 90
                       then char_of ((of_char c :: nat) + 32) else c) t"

fun contains :: "string \<Rightarrow> string \<Rightarrow> bool" where
  "contains [] needle = (needle = [])"
| "contains (c # cs) needle = (prefix needle (c # cs) \<or> contains cs needle)"

definition install_hint :: string where
  "install_hint =
     ''Python face recognition libraries not installed.'' @ [CHR 0x0A]
     @ ''Options:'' @ [CHR 0x0A]
     @ ''1. Install face-recognition (recommended): pip install face-recognition'' @ [CHR 0x0A]
     @ ''2. Install opencv-contrib-python: pip install opencv-contrib-python'' @ [CHR 0x0A]
     @ ''3. Use Java implementation: /api/training/train?usePython=java''"

text \<open>
  \<^verbatim>\<open>train_from_database\<close>. The three attributes are emptied first. Both training
  functions return a dictionary on every path of the model, so the outer handler of the
  source is not reached.
\<close>

definition train_route :: "('e, 'i, 'p, 'm) library \<Rightarrow> route" where
  "train_route L = (if FACE_RECOGNITION_AVAILABLE L then Embedding else Classifier)"

definition train_from_database :: "('e, 'i, 'p, 'm) library
    \<Rightarrow> write_outcome \<times> write_outcome \<Rightarrow> ('e, 'm) service \<Rightarrow> ('e, 'm) store
    \<Rightarrow> training_record list \<Rightarrow> train_result \<times> ('e, 'm) service \<times> ('e, 'm) store" where
  "train_from_database L ws s fs students_data =
     (let s0 = s\<lparr>known_encodings := [], known_labels := [], student_data := Map.empty\<rparr> in
      case train_route L of
        Embedding \<Rightarrow> train_with_face_recognition L ws s0 fs students_data
      | _ \<Rightarrow>
          (case train_with_opencv L ws s0 fs students_data of
             (result, s', fs') \<Rightarrow>
               if \<not> success result then
                 (let error_msg = message result in
                  if contains (lower error_msg) ''not available''
                     \<or> contains (lower error_msg) ''cannot import''
                  then (result\<lparr>message := install_hint\<rparr>, s', fs')
                  else (result, s', fs'))
               else (result, s', fs')))"

section \<open>Enrollable records\<close>

text \<open>
  A record is enrollable by the embedding path when its normalised image path is not
  empty, exists, and the library finds at least one face in the image without raising.
\<close>

definition enrollable_fr :: "('e, 'i, 'p, 'm) library \<Rightarrow> training_record \<Rightarrow> bool" where
  "enrollable_fr L st =
     (case normalize_path (rec_imagePath st) of
        None \<Rightarrow> False
      | Some p \<Rightarrow> p \<noteq> [] \<and> path_exists L p
                  \<and> (case train_encodings L p of Inl e \<Rightarrow> False | Inr encodings \<Rightarrow> encodings \<noteq> []))"

text \<open>
  The same for the classifier path: the image is read, the detector finds at least one
  face and the patch of the chosen face is cut without raising.
\<close>

definition enrollable_cv :: "('e, 'i, 'p, 'm) library \<Rightarrow> training_record \<Rightarrow> bool" where
  "enrollable_cv L st =
     (case normalize_path (rec_imagePath st) of
        None \<Rightarrow> False
      | Some p \<Rightarrow> p \<noteq> [] \<and> path_exists L p
                  \<and> (case imread L p of
                        None \<Rightarrow> False
                      | Some img \<Rightarrow>
                          (case detectMultiScale L img of
                             Inl e \<Rightarrow> False
                           | Inr faces \<Rightarrow>
                               (case faces of
                                  [] \<Rightarrow> False
                                | f # fs \<Rightarrow>
                                    (case face_roi L img (max_area f fs) of
                                       Inl e \<Rightarrow> False
                                     | Inr roi \<Rightarrow> True)))))"

section \<open>A process: a sequence of calls\<close>

text \<open>
  One process makes calls on one service object. A training call carries the records
  and what happens to its two writes; a recognition call carries the image path and
  leaves the object and the files as they are.
\<close>

datatype call = TrainCall "training_record list" "write_outcome \<times> write_outcome" | RecognizeCall string

fun call_route :: "('e, 'i, 'p, 'm) library \<Rightarrow> ('e, 'm) service \<Rightarrow> call \<Rightarrow> route" where
  "call_route L s (TrainCall students_data ws) = train_route L"
| "call_route L s (RecognizeCall image_path) = recognize_route L s image_path"

fun call_step :: "('e, 'i, 'p, 'm) library \<Rightarrow> ('e, 'm) service \<times> ('e, 'm) store \<Rightarrow> call
    \<Rightarrow> ('e, 'm) service \<times> ('e, 'm) store" where
  "call_step L (s, fs) (TrainCall students_data ws) =
     snd (train_from_database L ws s fs students_data)"
| "call_step L (s, fs) (RecognizeCall image_path) = (s, fs)"

fun routes :: "('e, 'i, 'p, 'm) library \<Rightarrow> ('e, 'm) service \<times> ('e, 'm) store \<Rightarrow> call list
    \<Rightarrow> route list" where
  "routes L st [] = []"
| "routes L st (c # cs) = call_route L (fst st) c # routes L (call_step L st c) cs"

section \<open>Concrete inputs\<close>

text \<open>
  A small world for the examples: an encoding is one real number and the distance the
  absolute difference; an image is the list of the rectangles the detector finds in
  it, a patch is its rectangle, and a trained recogniser is its training set. The
  recogniser predicts label 1 with raw score 25, and 150 for the patch of the large
  face.
\<close>

definition lib0 :: "(real, rect list, rect, rect list \<times> label list) library" where
  "lib0 =
     \<lparr>FACE_RECOGNITION_AVAILABLE = True,
      path_exists = (\<lambda>p. p = ''a.jpg'' \<or> p = ''g.jpg'' \<or> p = ''e.jpg''),
      train_encodings = (\<lambda>p. if p = ''a.jpg'' then Inr [0]
                              else if p = ''g.jpg'' then Inr [1, 5]
                              else if p = ''e.jpg'' then Inr []
                              else Inl ''cannot identify image file''),
      locate_encode = (\<lambda>p. if p = ''a.jpg'' then Inr [(1 / 8, (0, 10, 10, 0))]
                            else if p = ''g.jpg'' then Inr [(5 / 2, (0, 10, 10, 0))]
                            else if p = ''e.jpg'' then Inr []
                            else Inl ''cannot identify image file''),
      distance = (\<lambda>a b. \<bar>a - b\<bar>),
      cv2_face = True,
      imread = (\<lambda>p. if p = ''a.jpg'' then Some [(0, 0, 10, 10)]
                     else if p = ''g.jpg'' then Some [(0, 0, 10, 10), (20, 20, 50, 50)]
                     else if p = ''e.jpg'' then Some []
                     else None),
      detectMultiScale = (\<lambda>img. Inr img),
      rt_cascade_found = True,
      rt_detectMultiScale = (\<lambda>img. Inr img),
      face_roi = (\<lambda>img r. Inr r),
      lbph_train = (\<lambda>ps ls. Inr (ps, ls)),
      predict = (\<lambda>m p. Inr (1, if p = (20, 20, 50, 50) then 150 else 25))\<rparr>"

definition lib_cv :: "(real, rect list, rect, rect list \<times> label list) library" where
  "lib_cv = lib0\<lparr>FACE_RECOGNITION_AVAILABLE := False\<rparr>"

definition alice :: student where
  "alice = \<lparr>st_id = Some ''s1'', st_name = Some ''Alice'', st_department = Some ''CS''\<rparr>"

definition bob :: student where
  "bob = \<lparr>st_id = Some ''s2'', st_name = Some ''Bob'', st_department = Some ''EE''\<rparr>"

definition gallery0 :: "(real, rect list \<times> label list) service" where
  "gallery0 =
     \<lparr>recognizer = None, known_encodings = [0, 1], known_labels = [Some 1, Some 2],
      student_data = [Some 1 \<mapsto> alice, Some 2 \<mapsto> bob]\<rparr>"

definition gallery_old :: "(real, rect list \<times> label list) service" where
  "gallery_old =
     \<lparr>recognizer = None, known_encodings = [0], known_labels = [Some 1],
      student_data = [Some 1 \<mapsto> alice]\<rparr>"

definition gallery_cv :: "(real, rect list \<times> label list) service" where
  "gallery_cv =
     \<lparr>recognizer = Some ([(0, 0, 10, 10)], [Some 1]), known_encodings = [], known_labels = [],
      student_data = [Some 1 \<mapsto> alice]\<rparr>"

definition rec_a :: training_record where
  "rec_a = \<lparr>rec_imagePath = Some ''a.jpg'', rec_id = Some ''s1'', rec_name = Some ''Alice'',
            rec_department = Some ''CS'', rec_labelId = Some 1\<rparr>"

definition rec_g :: training_record where
  "rec_g = \<lparr>rec_imagePath = Some ''g.jpg'', rec_id = Some ''s2'', rec_name = Some ''Bob'',
            rec_department = Some ''EE'', rec_labelId = Some 2\<rparr>"

definition rec_e :: training_record where
  "rec_e = \<lparr>rec_imagePath = Some ''e.jpg'', rec_id = Some ''s3'', rec_name = Some ''Eve'',
            rec_department = Some ''ME'', rec_labelId = Some 3\<rparr>"

definition rec_missing :: training_record where
  "rec_missing = \<lparr>rec_imagePath = Some ''m.jpg'', rec_id = Some ''s4'', rec_name = Some ''Mo'',
            rec_department = Some ''CS'', rec_labelId = Some 4\<rparr>"

text \<open>
  Four \<^verbatim>\<open>float64\<close> values: \<^verbatim>\<open>0.3\<close>, the next one above it \<^verbatim>\<open>0.30000000000000004\<close>, \<^verbatim>\<open>0.7\<close>, and
  \<^verbatim>\<open>0.49999999999999994\<close>, the one just below one half.
\<close>

definition d_03 :: real where
  "d_03 = 5404319552844595 / 2 ^ 54"

definition d_03_next :: real where
  "d_03_next = 1351079888211149 / 2 ^ 52"

definition c_07 :: real where
  "c_07 = 3152519739159347 / 2 ^ 52"

definition d_below_half :: real where
  "d_below_half = 9007199254740991 / 2 ^ 54"

definition no_files :: "(real, rect list \<times> label list) store" where
  "no_files = \<lparr>encodings_file = Absent, labels_file = Absent, model_file = Absent\<rparr>"

section \<open>Floating-point arithmetic: lemmas\<close>

lemma round_even_of_int: "round_even (of_int n) = n"
  by (simp add: round_even_def)

lemma round_even_floor: "\<lfloor>x\<rfloor> \<le> round_even x \<and> round_even x \<le> \<lfloor>x\<rfloor> + 1"
  by (simp add: round_even_def Let_def)

lemma round_even_mono:
  assumes "x \<le> y"
  shows "round_even x \<le> round_even y"
proof (cases "\<lfloor>x\<rfloor> = \<lfloor>y\<rfloor>")
  case True
  then have "x - of_int \<lfloor>x\<rfloor> \<le> y - of_int \<lfloor>y\<rfloor>" using assms by simp
  with True show ?thesis by (auto simp: round_even_def Let_def)
next
  case False
  have "\<lfloor>x\<rfloor> \<le> \<lfloor>y\<rfloor>" using assms by (rule floor_mono)
  with False have "\<lfloor>x\<rfloor> + 1 \<le> \<lfloor>y\<rfloor>" by simp
  with round_even_floor [of x] round_even_floor [of y] show ?thesis by linarith
qed

lemma exponent_bounds:
  assumes "0 < x"
  shows "2 powi exponent x \<le> x \<and> x < 2 powi (exponent x + 1)"
proof (cases "1 \<le> x")
  case True
  define n where "n = \<lfloor>x\<rfloor>"
  have n: "0 < n" using True by (simp add: n_def)
  have e: "exponent x = bitlen n - 1" using True by (simp add: exponent_def n_def)
  have k: "0 \<le> bitlen n - 1" using n by (auto simp: bitlen_alt_def)
  from bitlen_bounds [OF n] have b1: "2 ^ nat (bitlen n - 1) \<le> n" and b2: "n < 2 ^ nat (bitlen n)"
    by simp_all
  have "(2::real) powi (bitlen n - 1) = 2 ^ nat (bitlen n - 1)"
    using k by (simp add: power_int_def)
  also have "\<dots> = of_int (2 ^ nat (bitlen n - 1))" by simp
  also have "\<dots> \<le> of_int n" using b1 by (simp only: of_int_le_iff)
  also have "\<dots> \<le> x" by (simp add: n_def)
  finally have lo: "2 powi (bitlen n - 1) \<le> x" .
  have "n + 1 \<le> 2 ^ nat (bitlen n)" using b2 by simp
  then have "(of_int (n + 1) :: real) \<le> of_int (2 ^ nat (bitlen n))" by (simp only: of_int_le_iff)
  moreover have "x < of_int (n + 1)" by (simp add: n_def)
  ultimately have "x < of_int (2 ^ nat (bitlen n))" by linarith
  also have "\<dots> = (2::real) ^ nat (bitlen n)" by simp
  also have "\<dots> = 2 powi (bitlen n)" using k by (simp add: power_int_def)
  finally have hi: "x < 2 powi (bitlen n - 1 + 1)" by simp
  from lo hi e show ?thesis by simp
next
  case False
  define y where "y = 1 / x"
  define n where "n = \<lceil>y\<rceil> - 1"
  have y: "1 < y" using False assms by (simp add: y_def)
  then have "2 \<le> \<lceil>y\<rceil>" by (simp add: less_ceiling_iff flip: int_one_le_iff_zero_less)
  then have n: "0 < n" by (simp add: n_def)
  have e: "exponent x = - bitlen n" using False by (simp add: exponent_def n_def y_def)
  have k: "0 \<le> bitlen n - 1" using n by (auto simp: bitlen_alt_def)
  from bitlen_bounds [OF n] have b1: "2 ^ nat (bitlen n - 1) \<le> n" and b2: "n < 2 ^ nat (bitlen n)"
    by simp_all
  have ny: "of_int n < y" "y \<le> of_int n + 1"
    unfolding n_def by linarith+
  have "(2::real) ^ nat (bitlen n - 1) = of_int (2 ^ nat (bitlen n - 1))" by simp
  also have "\<dots> \<le> of_int n" using b1 by (simp only: of_int_le_iff)
  also have "\<dots> < y" by (rule ny(1))
  finally have lo: "(2::real) ^ nat (bitlen n - 1) < y" .
  have "n + 1 \<le> 2 ^ nat (bitlen n)" using b2 by simp
  then have "(of_int (n + 1) :: real) \<le> of_int (2 ^ nat (bitlen n))" by (simp only: of_int_le_iff)
  with ny(2) have hi: "y \<le> (2::real) ^ nat (bitlen n)" by simp
  have p1: "(2::real) powi (- bitlen n) = 1 / 2 ^ nat (bitlen n)"
    using k by (simp add: power_int_minus_divide power_int_def power_one_over)
  have p2: "(2::real) powi (- bitlen n + 1) = 1 / 2 ^ nat (bitlen n - 1)"
  proof -
    have "- bitlen n + 1 = - (bitlen n - 1)" by simp
    then show ?thesis using k by (simp only: power_int_minus_divide) (simp add: power_int_def power_one_over)
  qed
  have x: "x = 1 / y" using assms by (simp add: y_def)
  have "1 / 2 ^ nat (bitlen n) \<le> 1 / y"
    using hi y by (intro divide_left_mono) simp_all
  then have lo': "2 powi (- bitlen n) \<le> x" using p1 x by simp
  have "1 / y < 1 / 2 ^ nat (bitlen n - 1)"
    using lo y by (intro divide_strict_left_mono mult_pos_pos) simp_all
  then have hi': "x < 2 powi (- bitlen n + 1)" using p2 x by simp
  from lo' hi' e show ?thesis by simp
qed


lemma round64_pos_bounds:
  assumes "0 < x"
  defines "q \<equiv> 2 powi (exponent x - 52)"
  shows "2 powi exponent x \<le> of_int (round_even (x / q)) * q"
    and "of_int (round_even (x / q)) * q \<le> 2 powi (exponent x + 1)"
proof -
  have q: "0 < q" by (simp add: q_def)
  have lo: "2 powi exponent x \<le> x" and hi: "x < 2 powi (exponent x + 1)"
    using exponent_bounds [OF assms(1)] by simp_all
  have a: "2 powi exponent x = 2 ^ 52 * q"
  proof -
    have "exponent x = 52 + (exponent x - 52)" by simp
    then have "(2::real) powi exponent x = 2 powi (52 + (exponent x - 52))"
      by (simp only:)
    also have "\<dots> = 2 powi 52 * 2 powi (exponent x - 52)"
      by (subst power_int_add) simp_all
    finally show ?thesis by (simp add: q_def)
  qed
  have b: "2 powi (exponent x + 1) = 2 ^ 53 * q"
  proof -
    have "exponent x + 1 = 53 + (exponent x - 52)" by simp
    then have "(2::real) powi (exponent x + 1) = 2 powi (53 + (exponent x - 52))"
      by (simp only:)
    also have "\<dots> = 2 powi 53 * 2 powi (exponent x - 52)"
      by (subst power_int_add) simp_all
    finally show ?thesis by (simp add: q_def)
  qed
  have "of_int (2 ^ 52) \<le> x / q" using lo a q by (simp add: pos_le_divide_eq)
  then have "round_even (of_int (2 ^ 52)) \<le> round_even (x / q)" by (rule round_even_mono)
  then have "(2 ^ 52 :: int) \<le> round_even (x / q)" by (simp only: round_even_of_int)
  then have "(of_int (2 ^ 52) :: real) \<le> of_int (round_even (x / q))" by (simp only: of_int_le_iff)
  then have "2 ^ 52 * q \<le> of_int (round_even (x / q)) * q" using q by simp
  with a show "2 powi exponent x \<le> of_int (round_even (x / q)) * q" by simp
  have "x / q \<le> of_int (2 ^ 53)" using hi b q by (simp add: pos_divide_le_eq)
  then have "round_even (x / q) \<le> round_even (of_int (2 ^ 53))" by (rule round_even_mono)
  then have "round_even (x / q) \<le> (2 ^ 53 :: int)" by (simp only: round_even_of_int)
  then have "(of_int (round_even (x / q)) :: real) \<le> of_int (2 ^ 53)" by (simp only: of_int_le_iff)
  then have "of_int (round_even (x / q)) * q \<le> 2 ^ 53 * q" using q by simp
  with b show "of_int (round_even (x / q)) * q \<le> 2 powi (exponent x + 1)" by simp
qed

lemma round64_pos:
  assumes "0 < x"
  shows "round64 x = of_int (round_even (x / 2 powi (exponent x - 52))) * 2 powi (exponent x - 52)"
  using assms by (simp add: round64_def Let_def)

lemma round64_neg: "round64 (- x) = - round64 x"
  by (simp add: round64_def Let_def sgn_minus)

lemma round64_pos_gt0:
  assumes "0 < x"
  shows "0 < round64 x"
proof -
  have "(0::real) < 2 powi exponent x" by simp
  also have "\<dots> \<le> round64 x"
    using round64_pos_bounds(1) [OF assms] round64_pos [OF assms] by simp
  finally show ?thesis .
qed

lemma round64_mono_pos:
  assumes "0 < x" "x \<le> y"
  shows "round64 x \<le> round64 y"
proof -
  have y: "0 < y" using assms by simp
  have ex: "2 powi exponent x \<le> x" using exponent_bounds [OF assms(1)] by simp
  have ey: "y < 2 powi (exponent y + 1)" using exponent_bounds [OF y] by simp
  have "(2::real) powi exponent x < 2 powi (exponent y + 1)" using ex ey assms(2) by linarith
  then have le: "exponent x \<le> exponent y"
    by (smt (verit) power_int_increasing)
  show ?thesis
  proof (cases "exponent x = exponent y")
    case True
    let ?q = "(2::real) powi (exponent y - 52)"
    have q: "0 < ?q" by simp
    have "x / ?q \<le> y / ?q" using assms(2) q by (simp add: divide_right_mono)
    then have "round_even (x / ?q) \<le> round_even (y / ?q)" by (rule round_even_mono)
    then have "(of_int (round_even (x / ?q)) :: real) \<le> of_int (round_even (y / ?q))"
      by (simp only: of_int_le_iff)
    then have "of_int (round_even (x / ?q)) * ?q \<le> of_int (round_even (y / ?q)) * ?q"
      using q by simp
    then show ?thesis using round64_pos [OF assms(1)] round64_pos [OF y] True by simp
  next
    case False
    with le have "exponent x + 1 \<le> exponent y" by simp
    then have "(2::real) powi (exponent x + 1) \<le> 2 powi exponent y"
      by (intro power_int_increasing) simp_all
    moreover have "round64 x \<le> 2 powi (exponent x + 1)"
      using round64_pos_bounds(2) [OF assms(1)] round64_pos [OF assms(1)] by simp
    moreover have "2 powi exponent y \<le> round64 y"
      using round64_pos_bounds(1) [OF y] round64_pos [OF y] by simp
    ultimately show ?thesis by linarith
  qed
qed

lemma round64_mono:
  assumes "x \<le> y"
  shows "round64 x \<le> round64 y"
proof -
  consider "0 < x" | "x \<le> 0" "0 \<le> y" | "y < 0" by linarith
  then show ?thesis
  proof cases
    case 1
    then show ?thesis using assms by (rule round64_mono_pos)
  next
    case 2
    have "round64 x \<le> 0"
    proof (cases "x = 0")
      case True
      then show ?thesis by (simp add: round64_def)
    next
      case False
      with 2 have "0 < - x" by simp
      then have "0 < round64 (- x)" by (rule round64_pos_gt0)
      then show ?thesis by (simp add: round64_neg)
    qed
    moreover have "0 \<le> round64 y"
    proof (cases "y = 0")
      case True
      then show ?thesis by (simp add: round64_def)
    next
      case False
      with 2 have "0 < y" by simp
      then have "0 < round64 y" by (rule round64_pos_gt0)
      then show ?thesis by simp
    qed
    ultimately show ?thesis by simp
  next
    case 3
    then have "0 < - y" "- y \<le> - x" using assms by simp_all
    then have "round64 (- y) \<le> round64 (- x)" by (rule round64_mono_pos)
    then show ?thesis by (simp add: round64_neg)
  qed
qed

lemma round64_nonneg_iff: "0 \<le> round64 x \<longleftrightarrow> 0 \<le> x"
proof
  assume a: "0 \<le> round64 x"
  show "0 \<le> x"
  proof (rule ccontr)
    assume "\<not> 0 \<le> x"
    then have "0 < - x" by simp
    then have "0 < round64 (- x)" by (rule round64_pos_gt0)
    with a show False by (simp add: round64_neg)
  qed
next
  assume "0 \<le> x"
  then have "round64 0 \<le> round64 x" by (rule round64_mono)
  then show "0 \<le> round64 x" by (simp add: round64_def)
qed

lemma round64_values:
  "round64 1 = 1" "round64 (1 / 2) = 1 / 2" "round64 100 = 100"
  "round64 (7 / 8) = 7 / 8" "round64 (3 / 8) = 3 / 8" "round64 (- (1 / 2)) = - (1 / 2)"
  "round64 75 = 75" "round64 (3 / 4) = 3 / 4" "round64 (- 50) = - 50"
  by code_simp+

lemma round64_tolerance: "round64 (6 / 10) = tolerance_0_6"
  unfolding tolerance_0_6_def by code_simp

lemma tolerance_below: "tolerance_0_6 < 6 / 10"
  by (simp add: tolerance_0_6_def)

lemma float_sub_values:
  "float_sub 1 0 = 1" "float_sub 1 (1 / 8) = 7 / 8" "float_sub 1 (5 / 8) = 3 / 8"
  "float_sub 1 (3 / 2) = - (1 / 2)" "float_sub 100 25 = 75" "float_sub 100 150 = - 50"
  by (simp_all add: float_sub_def round64_values)

lemma float_div_values:
  "float_div 75 100 = 3 / 4" "float_div (- 50) 100 = - (1 / 2)"
  by (simp_all add: float_div_def round64_values)

lemma float_sub_rounding:
  "float_sub 1 d_03 = c_07" "float_sub 1 d_03_next = c_07" "float_sub 1 d_below_half = 1 / 2"
  unfolding float_sub_def d_03_def d_03_next_def c_07_def d_below_half_def by code_simp+

lemma float_sub_antimono: "b \<le> c \<Longrightarrow> float_sub a c \<le> float_sub a b"
  unfolding float_sub_def by (rule round64_mono) simp

lemma float_sub_one_le: "0 \<le> d \<Longrightarrow> float_sub 1 d \<le> 1"
  using float_sub_antimono [of 0 d 1] by (simp add: float_sub_values)

lemma float_sub_one_nonneg: "0 \<le> float_sub 1 d \<longleftrightarrow> d \<le> 1"
  by (simp add: float_sub_def round64_nonneg_iff)

lemma float_sub_one_half: "1 / 2 \<le> d \<Longrightarrow> float_sub 1 d \<le> 1 / 2"
proof -
  assume "1 / 2 \<le> d"
  then have "1 - d \<le> 1 / 2" by simp
  then have "round64 (1 - d) \<le> round64 (1 / 2)" by (rule round64_mono)
  then show ?thesis by (simp add: float_sub_def round64_values)
qed

lemma score_le_one:
  assumes "0 \<le> raw"
  shows "float_div (float_sub 100 raw) 100 \<le> 1"
proof -
  have "100 - raw \<le> 100" using assms by simp
  then have "round64 (100 - raw) \<le> round64 100" by (rule round64_mono)
  then have "round64 (100 - raw) / 100 \<le> 1" by (simp add: round64_values)
  then have "round64 (round64 (100 - raw) / 100) \<le> round64 1" by (rule round64_mono)
  then show ?thesis by (simp add: float_div_def float_sub_def round64_values)
qed

lemma score_nonneg: "0 \<le> float_div (float_sub 100 raw) 100 \<longleftrightarrow> raw \<le> 100"
  by (simp add: float_div_def float_sub_def round64_nonneg_iff zero_le_divide_iff)

lemma tolerance_representable:
  assumes "round64 d = d"
  shows "d \<le> tolerance_0_6 \<longleftrightarrow> d \<le> 6 / 10"
proof
  assume "d \<le> tolerance_0_6"
  with tolerance_below show "d \<le> 6 / 10" by simp
next
  assume "d \<le> 6 / 10"
  then have "round64 d \<le> round64 (6 / 10)" by (rule round64_mono)
  then show "d \<le> tolerance_0_6" unfolding assms round64_tolerance .
qed

lemma wrap32_small: "0 \<le> n \<Longrightarrow> n < 2 ^ 31 \<Longrightarrow> wrap32 n = n"
  by (simp add: wrap32_def)


section \<open>The matcher: lemmas\<close>

lemma argmin_less: "xs \<noteq> [] \<Longrightarrow> argmin xs < length xs"
  by (induction xs rule: argmin.induct) (auto simp: Let_def)

lemma argmin_Min: "xs \<noteq> [] \<Longrightarrow> xs ! argmin xs = Min (set xs)"
proof (induction xs rule: argmin.induct)
  case 1
  then show ?case by simp
next
  case (2 x)
  then show ?case by simp
next
  case (3 x y ys)
  define j where "j = argmin (y # ys)"
  define v where "v = (y # ys) ! j"
  have ih: "v = Min (set (y # ys))" using 3 by (simp add: v_def j_def)
  have M: "Min (set (x # y # ys)) = min x v"
    using Min_insert [of "set (y # ys)" x] ih by simp
  have A: "(x # y # ys) ! argmin (x # y # ys) = (if x \<le> v then x else v)"
    by (simp add: Let_def v_def j_def)
  show ?case unfolding A M by (simp add: min_def)
qed

lemma face_distance_length: "length (face_distance L known q) = length known"
  by (simp add: face_distance_def)

lemma compare_faces_nth:
  "i < length known \<Longrightarrow> compare_faces L known q t ! i = (face_distance L known q ! i \<le> t)"
  by (simp add: compare_faces_def face_distance_def)

lemma match_face_eq:
  assumes "known_encodings s \<noteq> []"
    and "length (known_labels s) = length (known_encodings s)"
    and "\<forall>l\<in>set (known_labels s). student_data s l \<noteq> None"
    and "d = Min (set (face_distance L (known_encodings s) q))"
    and "i = argmin (face_distance L (known_encodings s) q)"
  shows "match_face L s q loc =
           Inr (if d \<le> tolerance_0_6 \<and> float_sub 1 d > 1 / 2
                then \<lparr>labelId = known_labels s ! i,
                      name = st_name (the (student_data s (known_labels s ! i))),
                      department = st_department (the (student_data s (known_labels s ! i))),
                      confidence = float_sub 1 d, location = loc\<rparr>
                else unknown_result (float_sub 1 d) loc)"
proof -
  let ?ds = "face_distance L (known_encodings s) q"
  have ne: "?ds \<noteq> []" using assms(1) by (simp add: face_distance_def)
  have i_lt: "i < length (known_encodings s)"
    using argmin_less [OF ne] assms(5) by (simp add: face_distance_length)
  have d_eq: "?ds ! i = d" using argmin_Min [OF ne] assms(4,5) by simp
  have m: "compare_faces L (known_encodings s) q tolerance_0_6 ! i = (d \<le> tolerance_0_6)"
    using compare_faces_nth [OF i_lt, of L q tolerance_0_6] d_eq by (simp only:)
  have "known_labels s ! i \<in> set (known_labels s)" using i_lt assms(2) by simp
  then obtain st where st: "student_data s (known_labels s ! i) = Some st"
    using assms(3) by auto
  show ?thesis
    using assms(1,2) i_lt d_eq m st assms(5)
    by (simp add: match_face_def Let_def)
qed

lemma match_face_confidence:
  assumes "known_encodings s \<noteq> []"
    and "d = Min (set (face_distance L (known_encodings s) q))"
    and "match_face L s q loc = Inr r"
  shows "confidence r = float_sub 1 d"
proof -
  let ?ds = "face_distance L (known_encodings s) q"
  have ne: "?ds \<noteq> []" using assms(1) by (simp add: face_distance_def)
  have d_eq: "?ds ! argmin ?ds = d" using argmin_Min [OF ne] assms(2) by simp
  show ?thesis
    using assms(1,3) d_eq
    by (auto simp: match_face_def Let_def unknown_result_def split: if_splits option.splits)
qed

lemma rt_match_face_confidence:
  assumes "known_encodings s \<noteq> []"
    and "d = Min (set (face_distance L (known_encodings s) q))"
    and "rt_match_face L s q loc = Inr r"
  shows "confidence r = float_sub 1 d"
proof -
  let ?ds = "face_distance L (known_encodings s) q"
  have ne: "?ds \<noteq> []" using assms(1) by (simp add: face_distance_def)
  have d_eq: "?ds ! argmin ?ds = d" using argmin_Min [OF ne] assms(2) by simp
  show ?thesis
    using assms(1,3) d_eq
    by (auto simp: rt_match_face_def Let_def unknown_result_def split: if_splits option.splits)
qed

lemma rt_match_face_agrees:
  assumes "known_encodings s \<noteq> []"
    and "length (known_labels s) = length (known_encodings s)"
    and "\<forall>l\<in>set (known_labels s). student_data s l \<noteq> None"
    and "\<forall>l\<in>set (known_labels s). l \<noteq> None"
  shows "rt_match_face L s q loc = match_face L s q loc"
proof -
  let ?ds = "face_distance L (known_encodings s) q"
  have ne: "?ds \<noteq> []" using assms(1) by (simp add: face_distance_def)
  have i_lt: "argmin ?ds < length (known_labels s)"
    using argmin_less [OF ne] assms(2) by (simp add: face_distance_length)
  then have mem: "known_labels s ! argmin ?ds \<in> set (known_labels s)" by simp
  obtain l where l: "known_labels s ! argmin ?ds = Some l"
    using mem assms(4) by auto
  obtain st where st: "student_data s (Some l) = Some st"
    using mem assms(3) l by auto
  show ?thesis
    using assms(1) i_lt l st by (simp add: rt_match_face_def match_face_def Let_def)
qed

lemma cv_match_face_confidence:
  assumes "face_roi L img rc = Inr roi" and "recognizer s = Some m"
    and "predict L m roi = Inr (l, raw)"
  shows "\<exists>r. cv_match_face L s img rc = Inr r
           \<and> confidence r = float_div (float_sub 100 raw) 100"
  using assms
  by (cases rc) (auto simp: cv_match_face_def Let_def unknown_result_def split: option.splits)

lemma gallery0_ok:
  "known_encodings gallery0 \<noteq> []"
  "length (known_labels gallery0) = length (known_encodings gallery0)"
  "\<forall>l\<in>set (known_labels gallery0). student_data gallery0 l \<noteq> None"
  "\<forall>l\<in>set (known_labels gallery0). l \<noteq> None"
  by (simp_all add: gallery0_def)

lemma gallery0_distances:
  "face_distance lib0 (known_encodings gallery0) q = [\<bar>0 - q\<bar>, \<bar>1 - q\<bar>]"
  by (simp add: face_distance_def gallery0_def lib0_def)

lemma gallery0_near:
  assumes "0 \<le> q" "q \<le> 1 / 2"
  shows "q = Min (set (face_distance lib0 (known_encodings gallery0) q))"
    and "0 = argmin (face_distance lib0 (known_encodings gallery0) q)"
  using assms by (simp_all add: gallery0_distances min_def)

lemma gallery0_beyond:
  assumes "1 \<le> q"
  shows "q - 1 = Min (set (face_distance lib0 (known_encodings gallery0) q))"
    and "Suc 0 = argmin (face_distance lib0 (known_encodings gallery0) q)"
  using assms by (simp_all add: gallery0_distances min_def)

lemma gallery0_labels:
  "known_labels gallery0 ! 0 = Some 1" "known_labels gallery0 ! Suc 0 = Some 2"
  "the (student_data gallery0 (Some 1)) = alice" "the (student_data gallery0 (Some 2)) = bob"
  by (simp_all add: gallery0_def)

lemma constants_order:
  "0 \<le> d_03" "d_03 \<le> 1 / 2" "0 \<le> d_03_next" "d_03_next \<le> 1 / 2" "d_03 < d_03_next"
  "d_03 \<le> tolerance_0_6" "d_03_next \<le> tolerance_0_6" "1 / 2 < c_07"
  "0 \<le> d_below_half" "d_below_half \<le> 1 / 2" "d_below_half < 1 / 2"
  "d_below_half \<le> tolerance_0_6"
  by (simp_all add: d_03_def d_03_next_def c_07_def d_below_half_def tolerance_0_6_def)

text \<open>
  C1. Against a non-empty gallery whose labels are aligned with its encodings and all
  have an identity record, the service's matcher returns the nearest label with its
  name and department exactly when the least distance is at most the tolerance 0.6 and
  the confidence, the \<^verbatim>\<open>float64\<close> difference of 1 and that distance, exceeds 0.5; otherwise
  it returns label -1 and the name Unknown; the confidence is reported in both cases.
  The frame recogniser's matcher returns the same result when the labels are integers.
  For a distance that is a \<^verbatim>\<open>float64\<close> value, being at most the literal 0.6 is being at most
  6/10.
\<close>

theorem embedding_match_accepts_iff:
  assumes "known_encodings s \<noteq> []"
    and "length (known_labels s) = length (known_encodings s)"
    and "\<forall>l\<in>set (known_labels s). student_data s l \<noteq> None"
    and "d = Min (set (face_distance L (known_encodings s) q))"
    and "i = argmin (face_distance L (known_encodings s) q)"
  shows "match_face L s q loc =
           Inr (if d \<le> tolerance_0_6 \<and> float_sub 1 d > 1 / 2
                then \<lparr>labelId = known_labels s ! i,
                      name = st_name (the (student_data s (known_labels s ! i))),
                      department = st_department (the (student_data s (known_labels s ! i))),
                      confidence = float_sub 1 d, location = loc\<rparr>
                else unknown_result (float_sub 1 d) loc)
         \<and> ((\<forall>l\<in>set (known_labels s). l \<noteq> None)
              \<longrightarrow> rt_match_face L s q loc = match_face L s q loc)
         \<and> (round64 d = d \<longrightarrow> (d \<le> tolerance_0_6 \<longleftrightarrow> d \<le> 6 / 10))"
  using match_face_eq [OF assms] rt_match_face_agrees [OF assms(1,2,3)] tolerance_representable
  by blast

theorem embedding_match_accepts_iff_witness:
  "match_face lib0 gallery0 (1 / 8) (0, 10, 10, 0) =
     Inr \<lparr>labelId = Some 1, name = Some ''Alice'', department = Some ''CS'',
          confidence = 7 / 8, location = (0, 10, 10, 0)\<rparr>
   \<and> rt_match_face lib0 gallery0 (1 / 8) (0, 10, 10, 0) =
     Inr \<lparr>labelId = Some 1, name = Some ''Alice'', department = Some ''CS'',
          confidence = 7 / 8, location = (0, 10, 10, 0)\<rparr>
   \<and> match_face lib0 gallery0 (13 / 8) (0, 10, 10, 0) =
     Inr (unknown_result (3 / 8) (0, 10, 10, 0))
   \<and> match_face lib0 gallery0 d_below_half (0, 10, 10, 0) =
     Inr (unknown_result (1 / 2) (0, 10, 10, 0))"
proof -
  have n: "(0::real) \<le> 1 / 8" "(1 / 8 :: real) \<le> 1 / 2" "(1::real) \<le> 13 / 8" by simp_all
  note T1 = embedding_match_accepts_iff [OF gallery0_ok(1,2,3) gallery0_near [OF n(1,2)],
      of "(0, 10, 10, 0)"]
  note T2 = embedding_match_accepts_iff [OF gallery0_ok(1,2,3) gallery0_beyond [OF n(3)],
      of "(0, 10, 10, 0)"]
  note T3 = embedding_match_accepts_iff [OF gallery0_ok(1,2,3)
      gallery0_near [OF constants_order(9,10)], of "(0, 10, 10, 0)"]
  have a: "match_face lib0 gallery0 (1 / 8) (0, 10, 10, 0) =
     Inr \<lparr>labelId = Some 1, name = Some ''Alice'', department = Some ''CS'',
          confidence = 7 / 8, location = (0, 10, 10, 0)\<rparr>"
    using conjunct1 [OF T1]
    by (simp add: float_sub_values gallery0_labels alice_def tolerance_0_6_def)
  have b: "rt_match_face lib0 gallery0 (1 / 8) (0, 10, 10, 0)
      = match_face lib0 gallery0 (1 / 8) (0, 10, 10, 0)"
    using mp [OF conjunct1 [OF conjunct2 [OF T1]] gallery0_ok(4)] .
  have c: "match_face lib0 gallery0 (13 / 8) (0, 10, 10, 0) =
     Inr (unknown_result (3 / 8) (0, 10, 10, 0))"
    using conjunct1 [OF T2] by (simp add: float_sub_values tolerance_0_6_def)
  have d: "match_face lib0 gallery0 d_below_half (0, 10, 10, 0) =
     Inr (unknown_result (1 / 2) (0, 10, 10, 0))"
    using conjunct1 [OF T3] by (simp add: float_sub_rounding)
  show ?thesis unfolding b by (intro conjI) (rule a, rule a, rule c, rule d)
qed

text \<open>
  C4, as the spec states it, fails: no value is clamped. A query at distance 3/2 from
  the nearest encoding is reported with confidence -1/2 by both embedding matchers,
  and a raw score of 150 gives the classifier's result the confidence -1/2.
\<close>

theorem confidence_in_unit_interval_counterexample:
  "match_face lib0 gallery0 (5 / 2) (0, 10, 10, 0) = Inr (unknown_result (- 1 / 2) (0, 10, 10, 0))
   \<and> rt_match_face lib0 gallery0 (5 / 2) (0, 10, 10, 0)
       = Inr (unknown_result (- 1 / 2) (0, 10, 10, 0))
   \<and> cv_match_face lib_cv gallery_cv [(20, 20, 50, 50)] (20, 20, 50, 50)
       = Inr (unknown_result (- 1 / 2) (20, 70, 70, 20))
   \<and> confidence (unknown_result (- 1 / 2) (0, 10, 10, 0)) < 0
   \<and> confidence (unknown_result (- 1 / 2) (20, 70, 70, 20)) < 0"
proof -
  have n: "(1::real) \<le> 5 / 2" by simp
  have a: "match_face lib0 gallery0 (5 / 2) (0, 10, 10, 0)
      = Inr (unknown_result (- 1 / 2) (0, 10, 10, 0))"
    using match_face_eq [OF gallery0_ok(1,2,3) gallery0_beyond [OF n], of "(0, 10, 10, 0)"]
    by (simp add: float_sub_values tolerance_0_6_def)
  have b: "rt_match_face lib0 gallery0 (5 / 2) (0, 10, 10, 0)
      = match_face lib0 gallery0 (5 / 2) (0, 10, 10, 0)"
    by (rule rt_match_face_agrees [OF gallery0_ok])
  have c: "cv_match_face lib_cv gallery_cv [(20, 20, 50, 50)] (20, 20, 50, 50)
       = Inr (unknown_result (- 1 / 2) (20, 70, 70, 20))"
    by (simp add: cv_match_face_def gallery_cv_def lib_cv_def lib0_def float_sub_values
        float_div_values wrap32_def)
  have d: "confidence (unknown_result (- 1 / 2) (0, 10, 10, 0)) < 0"
    "confidence (unknown_result (- 1 / 2) (20, 70, 70, 20)) < 0"
    by (simp_all add: unknown_result_def)
  show ?thesis unfolding b by (intro conjI) (rule a, rule a, rule c, rule d(1), rule d(2))
qed

text \<open>
  C4, amended. Every result of the embedding matchers carries as confidence the
  difference of 1 and the least distance, unclamped: it is at most 1 when the distance
  is not negative, and it is at least 0 exactly when the distance is at most 1. Every
  result of the classifier matcher carries (100 - raw score) / 100, unclamped: at most
  1 when the raw score is not negative, and at least 0 exactly when the raw score is at
  most 100. The operations are those of \<^verbatim>\<open>float64\<close>.
\<close>

theorem confidence_unclamped:
  "(known_encodings s \<noteq> [] \<and> d = Min (set (face_distance L (known_encodings s) q))
      \<and> match_face L s q loc = Inr r
      \<longrightarrow> confidence r = float_sub 1 d \<and> (0 \<le> d \<longrightarrow> confidence r \<le> 1)
          \<and> (0 \<le> confidence r \<longleftrightarrow> d \<le> 1))
   \<and> (known_encodings s \<noteq> [] \<and> d = Min (set (face_distance L (known_encodings s) q))
      \<and> rt_match_face L s q loc = Inr r'
      \<longrightarrow> confidence r' = float_sub 1 d \<and> (0 \<le> d \<longrightarrow> confidence r' \<le> 1)
          \<and> (0 \<le> confidence r' \<longleftrightarrow> d \<le> 1))
   \<and> (face_roi L img rc = Inr roi \<and> recognizer s = Some m \<and> predict L m roi = Inr (l, raw)
      \<longrightarrow> (\<exists>c. cv_match_face L s img rc = Inr c
            \<and> confidence c = float_div (float_sub 100 raw) 100
            \<and> (0 \<le> raw \<longrightarrow> confidence c \<le> 1) \<and> (0 \<le> confidence c \<longleftrightarrow> raw \<le> 100)))"
proof (intro conjI impI)
  assume a: "known_encodings s \<noteq> [] \<and> d = Min (set (face_distance L (known_encodings s) q))
      \<and> match_face L s q loc = Inr r"
  then have c: "confidence r = float_sub 1 d" using match_face_confidence [of s d L q loc r] by simp
  show "confidence r = float_sub 1 d" by (rule c)
  show "confidence r \<le> 1" if "0 \<le> d" unfolding c using that by (rule float_sub_one_le)
  show "(0 \<le> confidence r) = (d \<le> 1)" unfolding c by (rule float_sub_one_nonneg)
next
  assume a: "known_encodings s \<noteq> [] \<and> d = Min (set (face_distance L (known_encodings s) q))
      \<and> rt_match_face L s q loc = Inr r'"
  then have c: "confidence r' = float_sub 1 d"
    using rt_match_face_confidence [of s d L q loc r'] by simp
  show "confidence r' = float_sub 1 d" by (rule c)
  show "confidence r' \<le> 1" if "0 \<le> d" unfolding c using that by (rule float_sub_one_le)
  show "(0 \<le> confidence r') = (d \<le> 1)" unfolding c by (rule float_sub_one_nonneg)
next
  assume a: "face_roi L img rc = Inr roi \<and> recognizer s = Some m \<and> predict L m roi = Inr (l, raw)"
  then obtain c where c: "cv_match_face L s img rc = Inr c"
      "confidence c = float_div (float_sub 100 raw) 100"
    using cv_match_face_confidence [of L img rc roi s m l raw] by auto
  have "(0 \<le> raw \<longrightarrow> confidence c \<le> 1) \<and> (0 \<le> confidence c \<longleftrightarrow> raw \<le> 100)"
    unfolding c(2) using score_le_one [of raw] score_nonneg [of raw] by blast
  with c show "\<exists>c. cv_match_face L s img rc = Inr c
            \<and> confidence c = float_div (float_sub 100 raw) 100
            \<and> (0 \<le> raw \<longrightarrow> confidence c \<le> 1) \<and> (0 \<le> confidence c \<longleftrightarrow> raw \<le> 100)"
    by (intro exI [of _ c]) simp
qed

theorem confidence_unclamped_witness:
  "confidence (unknown_result (- 1 / 2) (0, 10, 10, 0)) = float_sub 1 (3 / 2)
   \<and> \<not> 0 \<le> confidence (unknown_result (- 1 / 2) (0, 10, 10, 0))
   \<and> (\<exists>c. cv_match_face lib_cv gallery_cv [(0, 0, 10, 10)] (0, 0, 10, 10) = Inr c
          \<and> confidence c = 3 / 4)"
proof -
  have n: "(1::real) \<le> 5 / 2" by simp
  have m: "match_face lib0 gallery0 (5 / 2) (0, 10, 10, 0)
             = Inr (unknown_result (- 1 / 2) (0, 10, 10, 0))"
    using match_face_eq [OF gallery0_ok(1,2,3) gallery0_beyond [OF n], of "(0, 10, 10, 0)"]
    by (simp add: float_sub_values tolerance_0_6_def)
  have d: "(3 / 2 :: real) = Min (set (face_distance lib0 (known_encodings gallery0) (5 / 2)))"
    using gallery0_beyond(1) [OF n] by simp
  have p: "face_roi lib_cv [(0, 0, 10, 10)] (0, 0, 10, 10) = Inr (0, 0, 10, 10)
     \<and> recognizer gallery_cv = Some ([(0, 0, 10, 10)], [Some 1])
     \<and> predict lib_cv ([(0, 0, 10, 10)], [Some 1]) (0, 0, 10, 10) = Inr (1, 25)"
    by (simp add: lib_cv_def lib0_def gallery_cv_def)
  let ?r0 = "unknown_result (- 1 / 2) (0, 10, 10, 0)"
  note T1 = confidence_unclamped [of gallery0 "3 / 2" lib0 "5 / 2" "(0, 10, 10, 0)" ?r0 ?r0]
  note T2 = confidence_unclamped [of gallery_cv 0 lib_cv 0 "(0, 0, 0, 0)" ?r0 ?r0
        "[(0, 0, 10, 10)]" "(0, 0, 10, 10)" "(0, 0, 10, 10)" "([(0, 0, 10, 10)], [Some 1])" 1 25]
  have A: "confidence ?r0 = float_sub 1 (3 / 2) \<and> (0 \<le> (3 / 2 :: real) \<longrightarrow> confidence ?r0 \<le> 1)
      \<and> (0 \<le> confidence ?r0 \<longleftrightarrow> (3 / 2 :: real) \<le> 1)"
    by (rule mp [OF conjunct1 [OF T1]]) (intro conjI, rule gallery0_ok(1), rule d, rule m)
  have B: "\<exists>c. cv_match_face lib_cv gallery_cv [(0, 0, 10, 10)] (0, 0, 10, 10) = Inr c
      \<and> confidence c = float_div (float_sub 100 25) 100
      \<and> (0 \<le> (25 :: real) \<longrightarrow> confidence c \<le> 1) \<and> (0 \<le> confidence c \<longleftrightarrow> (25 :: real) \<le> 100)"
    by (rule mp [OF conjunct2 [OF conjunct2 [OF T2]]]) (rule p)
  from A have A1: "confidence ?r0 = float_sub 1 (3 / 2)" by (rule conjunct1)
  from A have A2: "\<not> 0 \<le> confidence ?r0" by simp
  from B obtain c where c: "cv_match_face lib_cv gallery_cv [(0, 0, 10, 10)] (0, 0, 10, 10) = Inr c"
      "confidence c = float_div (float_sub 100 25) 100"
    by blast
  from c(2) have "confidence c = 3 / 4" by (simp add: float_sub_values float_div_values)
  with c(1) have B': "\<exists>c. cv_match_face lib_cv gallery_cv [(0, 0, 10, 10)] (0, 0, 10, 10) = Inr c
      \<and> confidence c = 3 / 4" by blast
  show ?thesis by (intro conjI) (rule A1, rule A2, rule B')
qed

text \<open>
  C5, as the spec states it, fails: the confidence does not strictly decrease. The
  two neighbouring \<^verbatim>\<open>float64\<close> distances 0.3 and 0.30000000000000004 are the least distances of
  two queries, and both queries are answered with the same result, of confidence 0.7:
  the subtraction rounds both differences to the same number.
\<close>

theorem confidence_strictly_decreasing_counterexample:
  "d_03 = Min (set (face_distance lib0 (known_encodings gallery0) d_03))
   \<and> d_03_next = Min (set (face_distance lib0 (known_encodings gallery0) d_03_next))
   \<and> d_03 < d_03_next
   \<and> match_face lib0 gallery0 d_03 (0, 10, 10, 0) =
       Inr \<lparr>labelId = Some 1, name = Some ''Alice'', department = Some ''CS'',
            confidence = c_07, location = (0, 10, 10, 0)\<rparr>
   \<and> match_face lib0 gallery0 d_03_next (0, 10, 10, 0) =
       Inr \<lparr>labelId = Some 1, name = Some ''Alice'', department = Some ''CS'',
            confidence = c_07, location = (0, 10, 10, 0)\<rparr>"
proof -
  note n1 = gallery0_near [OF constants_order(1,2)]
  note n2 = gallery0_near [OF constants_order(3,4)]
  have a: "match_face lib0 gallery0 d_03 (0, 10, 10, 0) =
       Inr \<lparr>labelId = Some 1, name = Some ''Alice'', department = Some ''CS'',
            confidence = c_07, location = (0, 10, 10, 0)\<rparr>"
    using match_face_eq [OF gallery0_ok(1,2,3) n1, of "(0, 10, 10, 0)"]
    by (simp add: float_sub_rounding constants_order gallery0_labels alice_def c_07_def)
  have b: "match_face lib0 gallery0 d_03_next (0, 10, 10, 0) =
       Inr \<lparr>labelId = Some 1, name = Some ''Alice'', department = Some ''CS'',
            confidence = c_07, location = (0, 10, 10, 0)\<rparr>"
    using match_face_eq [OF gallery0_ok(1,2,3) n2, of "(0, 10, 10, 0)"]
    by (simp add: float_sub_rounding constants_order gallery0_labels alice_def c_07_def)
  show ?thesis
    by (intro conjI) (rule n1(1), rule n2(1), rule constants_order(5), rule a, rule b)
qed

text \<open>
  C5, amended. For a gallery as in C1, the confidence the matcher returns is the
  \<^verbatim>\<open>float64\<close> difference of 1 and the least distance, so it is a function of that distance,
  and it is never greater for a greater distance; at distance 0 the confidence is 1 and
  the nearest label is returned with its name; at a distance of 0.6 or more the result
  has label -1 and the name Unknown. The frame recogniser's matcher returns the same
  results when the labels are integers.
\<close>

theorem confidence_decreases_with_distance:
  assumes "known_encodings s \<noteq> []"
    and "length (known_labels s) = length (known_encodings s)"
    and "\<forall>l\<in>set (known_labels s). student_data s l \<noteq> None"
    and "d1 = Min (set (face_distance L (known_encodings s) q1))"
    and "d2 = Min (set (face_distance L (known_encodings s) q2))"
    and "i1 = argmin (face_distance L (known_encodings s) q1)"
  shows "\<exists>r1 r2. match_face L s q1 loc1 = Inr r1 \<and> match_face L s q2 loc2 = Inr r2
           \<and> confidence r1 = float_sub 1 d1 \<and> confidence r2 = float_sub 1 d2
           \<and> (d1 < d2 \<longrightarrow> confidence r2 \<le> confidence r1)
           \<and> (d1 = 0 \<longrightarrow> confidence r1 = 1 \<and> labelId r1 = known_labels s ! i1
                \<and> name r1 = st_name (the (student_data s (known_labels s ! i1)))
                \<and> department r1 = st_department (the (student_data s (known_labels s ! i1))))
           \<and> (6 / 10 \<le> d1 \<longrightarrow> labelId r1 = Some (- 1) \<and> name r1 = Some ''Unknown'')
           \<and> ((\<forall>l\<in>set (known_labels s). l \<noteq> None)
                \<longrightarrow> rt_match_face L s q1 loc1 = Inr r1 \<and> rt_match_face L s q2 loc2 = Inr r2)"
proof -
  note e1 = match_face_eq [OF assms(1,2,3) assms(4) assms(6), of loc1]
  note e2 = match_face_eq [OF assms(1,2,3) assms(5) refl, of loc2]
  obtain r1 where r1: "match_face L s q1 loc1 = Inr r1" using e1 by simp
  obtain r2 where r2: "match_face L s q2 loc2 = Inr r2" using e2 by simp
  have c1: "confidence r1 = float_sub 1 d1"
    using match_face_confidence [OF assms(1) assms(4) r1] .
  have c2: "confidence r2 = float_sub 1 d2"
    using match_face_confidence [OF assms(1) assms(5) r2] .
  have zero: "d1 = 0 \<longrightarrow> confidence r1 = 1 \<and> labelId r1 = known_labels s ! i1
                \<and> name r1 = st_name (the (student_data s (known_labels s ! i1)))
                \<and> department r1 = st_department (the (student_data s (known_labels s ! i1)))"
  proof
    assume z: "d1 = 0"
    have "d1 \<le> tolerance_0_6 \<and> 1 / 2 < float_sub 1 d1"
      unfolding z by (simp add: float_sub_values tolerance_0_6_def)
    then have "Inr r1 = Inr \<lparr>labelId = known_labels s ! i1,
                      name = st_name (the (student_data s (known_labels s ! i1))),
                      department = st_department (the (student_data s (known_labels s ! i1))),
                      confidence = float_sub 1 d1, location = loc1\<rparr>"
      using e1 r1 by simp
    then show "confidence r1 = 1 \<and> labelId r1 = known_labels s ! i1
                \<and> name r1 = st_name (the (student_data s (known_labels s ! i1)))
                \<and> department r1 = st_department (the (student_data s (known_labels s ! i1)))"
      unfolding z by (auto simp: float_sub_values)
  qed
  have far: "6 / 10 \<le> d1 \<longrightarrow> labelId r1 = Some (- 1) \<and> name r1 = Some ''Unknown''"
  proof
    assume "6 / 10 \<le> d1"
    then have "1 / 2 \<le> d1" by simp
    then have "\<not> 1 / 2 < float_sub 1 d1" using float_sub_one_half [of d1] by simp
    then have "Inr r1 = Inr (unknown_result (float_sub 1 d1) loc1)" using e1 r1 by simp
    then show "labelId r1 = Some (- 1) \<and> name r1 = Some ''Unknown''"
      by (auto simp: unknown_result_def)
  qed
  have rt: "(\<forall>l\<in>set (known_labels s). l \<noteq> None)
                \<longrightarrow> rt_match_face L s q1 loc1 = Inr r1 \<and> rt_match_face L s q2 loc2 = Inr r2"
  proof (intro impI conjI)
    assume a: "\<forall>l\<in>set (known_labels s). l \<noteq> None"
    show "rt_match_face L s q1 loc1 = Inr r1"
      using r1 by (simp add: rt_match_face_agrees [OF assms(1,2,3) a])
    show "rt_match_face L s q2 loc2 = Inr r2"
      using r2 by (simp add: rt_match_face_agrees [OF assms(1,2,3) a])
  qed
  have mono: "d1 < d2 \<longrightarrow> confidence r2 \<le> confidence r1"
    unfolding c1 c2 using float_sub_antimono [of d1 d2 1] by simp
  show ?thesis
  proof (intro exI conjI)
    show "match_face L s q1 loc1 = Inr r1" by (rule r1)
    show "match_face L s q2 loc2 = Inr r2" by (rule r2)
    show "confidence r1 = float_sub 1 d1" by (rule c1)
    show "confidence r2 = float_sub 1 d2" by (rule c2)
    show "d1 < d2 \<longrightarrow> confidence r2 \<le> confidence r1" by (rule mono)
    show "d1 = 0 \<longrightarrow> confidence r1 = 1 \<and> labelId r1 = known_labels s ! i1
                \<and> name r1 = st_name (the (student_data s (known_labels s ! i1)))
                \<and> department r1 = st_department (the (student_data s (known_labels s ! i1)))"
      by (rule zero)
    show "6 / 10 \<le> d1 \<longrightarrow> labelId r1 = Some (- 1) \<and> name r1 = Some ''Unknown''" by (rule far)
    show "(\<forall>l\<in>set (known_labels s). l \<noteq> None)
                \<longrightarrow> rt_match_face L s q1 loc1 = Inr r1 \<and> rt_match_face L s q2 loc2 = Inr r2"
      by (rule rt)
  qed
qed

theorem confidence_decreases_with_distance_witness:
  "\<exists>r1 r2. match_face lib0 gallery0 1 (0, 10, 10, 0) = Inr r1
      \<and> match_face lib0 gallery0 (13 / 8) (0, 10, 10, 0) = Inr r2
      \<and> confidence r1 = 1 \<and> confidence r2 = 3 / 8 \<and> confidence r2 \<le> confidence r1
      \<and> labelId r1 = Some 2 \<and> name r1 = Some ''Bob''
      \<and> rt_match_face lib0 gallery0 1 (0, 10, 10, 0) = Inr r1"
proof -
  have n: "(1::real) \<le> 1" "(1::real) \<le> 13 / 8" by simp_all
  have d1: "(0 :: real) = Min (set (face_distance lib0 (known_encodings gallery0) 1))"
    using gallery0_beyond(1) [OF n(1)] by simp
  have d2: "(5 / 8 :: real) = Min (set (face_distance lib0 (known_encodings gallery0) (13 / 8)))"
    using gallery0_beyond(1) [OF n(2)] by simp
  note i1 = gallery0_beyond(2) [OF n(1)]
  obtain r1 r2 where R: "match_face lib0 gallery0 1 (0, 10, 10, 0) = Inr r1"
      "match_face lib0 gallery0 (13 / 8) (0, 10, 10, 0) = Inr r2"
      "confidence r1 = float_sub 1 0" "confidence r2 = float_sub 1 (5 / 8)"
      "(0 :: real) < 5 / 8 \<longrightarrow> confidence r2 \<le> confidence r1"
      "(0 :: real) = 0 \<longrightarrow> confidence r1 = 1 \<and> labelId r1 = known_labels gallery0 ! Suc 0
         \<and> name r1 = st_name (the (student_data gallery0 (known_labels gallery0 ! Suc 0)))
         \<and> department r1
             = st_department (the (student_data gallery0 (known_labels gallery0 ! Suc 0)))"
      "(\<forall>l\<in>set (known_labels gallery0). l \<noteq> None)
         \<longrightarrow> rt_match_face lib0 gallery0 1 (0, 10, 10, 0) = Inr r1
           \<and> rt_match_face lib0 gallery0 (13 / 8) (0, 10, 10, 0) = Inr r2"
    using confidence_decreases_with_distance [OF gallery0_ok(1,2,3) d1 d2 i1,
        of "(0, 10, 10, 0)" "(0, 10, 10, 0)"]
    by blast
  have c: "confidence r1 = 1" "confidence r2 = 3 / 8"
    using R(3,4) by (simp_all add: float_sub_values)
  have c3: "confidence r2 \<le> confidence r1" unfolding c by simp
  have nm: "labelId r1 = Some 2" "name r1 = Some ''Bob''"
    using R(6) by (simp_all add: gallery0_labels bob_def)
  have rt: "rt_match_face lib0 gallery0 1 (0, 10, 10, 0) = Inr r1"
    using R(7) gallery0_ok(4) by blast
  show ?thesis
  proof (intro exI conjI)
    show "match_face lib0 gallery0 1 (0, 10, 10, 0) = Inr r1" by (rule R(1))
    show "match_face lib0 gallery0 (13 / 8) (0, 10, 10, 0) = Inr r2" by (rule R(2))
    show "confidence r1 = 1" by (rule c(1))
    show "confidence r2 = 3 / 8" by (rule c(2))
    show "confidence r2 \<le> confidence r1" by (rule c3)
    show "labelId r1 = Some 2" by (rule nm(1))
    show "name r1 = Some ''Bob''" by (rule nm(2))
    show "rt_match_face lib0 gallery0 1 (0, 10, 10, 0) = Inr r1" by (rule rt)
  qed
qed


section \<open>Training: lemmas\<close>

lemma enroll_fr_skip: "\<not> enrollable_fr L st \<Longrightarrow> enroll_fr L st acc = acc"
  by (cases acc) (auto simp: enroll_fr_def enrollable_fr_def split: option.splits sum.splits)

lemma enroll_fr_take:
  assumes "enrollable_fr L st"
  shows "\<exists>p e es. normalize_path (rec_imagePath st) = Some p \<and> train_encodings L p = Inr (e # es)
     \<and> enroll_fr L st (s, n) =
         (s\<lparr>known_encodings := known_encodings s @ [e],
            known_labels := known_labels s @ [rec_labelId st],
            student_data := (student_data s)(rec_labelId st \<mapsto>
               \<lparr>st_id = rec_id st, st_name = rec_name st, st_department = rec_department st\<rparr>)\<rparr>,
          Suc n)"
  using assms
  by (auto simp: enroll_fr_def enrollable_fr_def neq_Nil_conv split: option.splits sum.splits)

lemma train_loop_fr_count:
  "snd (train_loop_fr L recs (s, n)) = n + length (filter (enrollable_fr L) recs)"
proof (induction recs arbitrary: s n)
  case Nil
  then show ?case by simp
next
  case (Cons st recs)
  show ?case
  proof (cases "enrollable_fr L st")
    case True
    then obtain s' where "enroll_fr L st (s, n) = (s', Suc n)"
      using enroll_fr_take [OF True, of s n] by blast
    with True Cons.IH [of s' "Suc n"] show ?thesis by simp
  next
    case False
    with Cons.IH [of s n] show ?thesis by (simp add: enroll_fr_skip)
  qed
qed

lemma train_loop_fr_none:
  "\<forall>r\<in>set recs. \<not> enrollable_fr L r \<Longrightarrow> train_loop_fr L recs acc = acc"
  by (induction recs arbitrary: acc) (simp_all add: enroll_fr_skip)

lemma enroll_fr_recognizer: "recognizer (fst (enroll_fr L st (s, n))) = recognizer s"
  by (auto simp: enroll_fr_def split: option.splits sum.splits)

lemma train_loop_fr_recognizer:
  "recognizer (fst (train_loop_fr L recs (s, n))) = recognizer s"
proof (induction recs arbitrary: s n)
  case Nil
  then show ?case by simp
next
  case (Cons st recs)
  obtain s' n' where e: "enroll_fr L st (s, n) = (s', n')" by (cases "enroll_fr L st (s, n)")
  then have "recognizer s' = recognizer s" using enroll_fr_recognizer [of L st s n] by simp
  with Cons.IH [of s' n'] e show ?case by simp
qed

lemma enroll_cv_skip: "\<not> enrollable_cv L st \<Longrightarrow> enroll_cv L st acc = acc"
  by (cases acc)
    (auto simp: enroll_cv_def enrollable_cv_def Let_def split: option.splits sum.splits list.splits)

lemma enroll_cv_take:
  assumes "enrollable_cv L st"
  shows "\<exists>roi. enroll_cv L st (images, labels, m) =
           (images @ [roi], labels @ [rec_labelId st],
            m(rec_labelId st \<mapsto>
               \<lparr>st_id = rec_id st, st_name = rec_name st, st_department = rec_department st\<rparr>))"
  using assms
  by (auto simp: enroll_cv_def enrollable_cv_def Let_def split: option.splits sum.splits list.splits)

lemma train_loop_cv_count:
  "length (fst (train_loop_cv L recs (images, labels, m)))
     = length images + length (filter (enrollable_cv L) recs)"
proof (induction recs arbitrary: images labels m)
  case Nil
  then show ?case by simp
next
  case (Cons st recs)
  show ?case
  proof (cases "enrollable_cv L st")
    case True
    then obtain roi where "enroll_cv L st (images, labels, m) =
           (images @ [roi], labels @ [rec_labelId st],
            m(rec_labelId st \<mapsto>
               \<lparr>st_id = rec_id st, st_name = rec_name st, st_department = rec_department st\<rparr>))"
      using enroll_cv_take [OF True, of images labels m] by blast
    with True Cons.IH [of "images @ [roi]"] show ?thesis by simp
  next
    case False
    with Cons.IH [of images labels m] show ?thesis by (simp add: enroll_cv_skip)
  qed
qed



lemma enroll_fr_invariant:
  assumes "length (known_labels s) = length (known_encodings s)"
    and "\<forall>l\<in>set (known_labels s). student_data s l \<noteq> None"
    and "enroll_fr L st (s, n) = (s', n')"
  shows "length (known_labels s') = length (known_encodings s')
         \<and> (\<forall>l\<in>set (known_labels s'). student_data s' l \<noteq> None)"
proof (cases "enrollable_fr L st")
  case True
  then show ?thesis
    using enroll_fr_take [OF True, of s n] assms by auto
next
  case False
  then show ?thesis using enroll_fr_skip [OF False, of "(s, n)"] assms by simp
qed

lemma train_loop_fr_invariant:
  "length (known_labels s) = length (known_encodings s)
   \<Longrightarrow> \<forall>l\<in>set (known_labels s). student_data s l \<noteq> None
   \<Longrightarrow> train_loop_fr L recs (s, n) = (s', n')
   \<Longrightarrow> length (known_labels s') = length (known_encodings s')
       \<and> (\<forall>l\<in>set (known_labels s'). student_data s' l \<noteq> None)"
proof (induction recs arbitrary: s n)
  case Nil
  then show ?case by simp
next
  case (Cons st recs)
  obtain s1 n1 where e: "enroll_fr L st (s, n) = (s1, n1)" by (cases "enroll_fr L st (s, n)")
  note i = enroll_fr_invariant [OF Cons.prems(1,2) e]
  from Cons.prems(3) e have "train_loop_fr L recs (s1, n1) = (s', n')" by simp
  then show ?case using Cons.IH [of s1 n1] i by blast
qed

text \<open>
  The gallery an embedding training run leaves in memory has its labels aligned with
  its encodings and an identity record for every label: the condition under which the
  matcher is studied above.
\<close>

lemma train_establishes_gallery_invariant:
  assumes "FACE_RECOGNITION_AVAILABLE L"
    and "train_from_database L ws s fs recs = (r, s', fs')"
  shows "length (known_labels s') = length (known_encodings s')
         \<and> (\<forall>l\<in>set (known_labels s'). student_data s' l \<noteq> None)"
proof -
  let ?s0 = "s\<lparr>known_encodings := [], known_labels := [], student_data := Map.empty\<rparr>"
  obtain s1 c where l: "train_loop_fr L recs (?s0, 0) = (s1, c)"
    by (cases "train_loop_fr L recs (?s0, 0)")
  have i: "length (known_labels s1) = length (known_encodings s1)
         \<and> (\<forall>l\<in>set (known_labels s1). student_data s1 l \<noteq> None)"
    by (rule train_loop_fr_invariant [OF _ _ l]) simp_all
  have "s' = s1"
    using assms l
    by (auto simp: train_from_database_def train_route_def train_with_face_recognition_def
        simp del: str_nat.simps split: if_splits)
  with i show ?thesis by simp
qed

lemma train_fr_result:
  "train_with_face_recognition L ws s fs recs =
     (let s' = fst (train_loop_fr L recs (s, 0));
          n = length (filter (enrollable_fr L) recs)
      in if n = 0
         then (failed ''No faces found in training images'', s', fs)
         else (\<lparr>success = True, message = ''Trained '' @ str_nat n @ '' faces successfully'',
                trained_count = Some n\<rparr>, s', save_model ws s' fs))"
proof -
  obtain s' c where l: "train_loop_fr L recs (s, 0) = (s', c)"
    by (cases "train_loop_fr L recs (s, 0)")
  then have "c = length (filter (enrollable_fr L) recs)"
    using train_loop_fr_count [of L recs s 0] by simp
  with l show ?thesis
    by (simp add: train_with_face_recognition_def Let_def failed_def del: str_nat.simps)
qed

text \<open>
  C2. With the embedding library present, a batch with at least one enrollable record
  trains successfully and the count is the number of enrollable records: those whose
  normalised image path exists and whose image has at least one face, the library not
  raising. The other records are skipped. The classifier path returns the same when its
  module is present, the recogniser trains and both of its files are written.
\<close>

theorem train_counts_enrollable_records:
  "(FACE_RECOGNITION_AVAILABLE L \<and> (\<exists>r\<in>set recs. enrollable_fr L r)
      \<longrightarrow> fst (train_from_database L ws s fs recs) =
            \<lparr>success = True,
             message = ''Trained '' @ str_nat (length (filter (enrollable_fr L) recs))
               @ '' faces successfully'',
             trained_count = Some (length (filter (enrollable_fr L) recs))\<rparr>)
   \<and> (\<not> FACE_RECOGNITION_AVAILABLE L \<and> cv2_face L \<and> (\<exists>r\<in>set recs. enrollable_cv L r)
        \<and> (\<forall>ps ls. \<exists>m. lbph_train L ps ls = Inr m) \<and> ws = (Written, Written)
      \<longrightarrow> fst (train_from_database L ws s fs recs) =
            \<lparr>success = True,
             message = ''Trained '' @ str_nat (length (filter (enrollable_cv L) recs))
               @ '' faces successfully'',
             trained_count = Some (length (filter (enrollable_cv L) recs))\<rparr>)"
proof (intro conjI impI)
  assume a: "FACE_RECOGNITION_AVAILABLE L \<and> (\<exists>r\<in>set recs. enrollable_fr L r)"
  then have "filter (enrollable_fr L) recs \<noteq> []" by (simp add: filter_empty_conv)
  then have "length (filter (enrollable_fr L) recs) \<noteq> 0" by simp
  with a show "fst (train_from_database L ws s fs recs) =
            \<lparr>success = True,
             message = ''Trained '' @ str_nat (length (filter (enrollable_fr L) recs))
               @ '' faces successfully'',
             trained_count = Some (length (filter (enrollable_fr L) recs))\<rparr>"
    by (simp add: train_from_database_def train_route_def train_fr_result Let_def
        del: str_nat.simps)
next
  assume a: "\<not> FACE_RECOGNITION_AVAILABLE L \<and> cv2_face L \<and> (\<exists>r\<in>set recs. enrollable_cv L r)
        \<and> (\<forall>ps ls. \<exists>m. lbph_train L ps ls = Inr m) \<and> ws = (Written, Written)"
  obtain images labels m where l: "train_loop_cv L recs ([], [], Map.empty) = (images, labels, m)"
    by (cases "train_loop_cv L recs ([], [], Map.empty)")
  then have n: "length images = length (filter (enrollable_cv L) recs)"
    using train_loop_cv_count [of L recs "[]" "[]" Map.empty] by simp
  from a have "filter (enrollable_cv L) recs \<noteq> []" by (simp add: filter_empty_conv)
  with n have ne: "images \<noteq> []" by auto
  from a obtain model where t: "lbph_train L images labels = Inr model" by blast
  from a l n ne t show "fst (train_from_database L ws s fs recs) =
            \<lparr>success = True,
             message = ''Trained '' @ str_nat (length (filter (enrollable_cv L) recs))
               @ '' faces successfully'',
             trained_count = Some (length (filter (enrollable_cv L) recs))\<rparr>"
    by (simp add: train_from_database_def train_route_def train_with_opencv_def write_file_def
        Let_def del: str_nat.simps)
qed

lemma lib0_enrollable:
  "enrollable_fr lib0 rec_a" "enrollable_fr lib0 rec_g"
  "\<not> enrollable_fr lib0 rec_e" "\<not> enrollable_fr lib0 rec_missing"
  by (simp_all add: enrollable_fr_def normalize_path_def lib0_def rec_a_def rec_g_def rec_e_def
      rec_missing_def)

theorem train_counts_enrollable_records_witness:
  "fst (train_from_database lib0 (Written, Written) gallery0 no_files
          [rec_a, rec_missing, rec_e, rec_g]) =
     \<lparr>success = True, message = ''Trained 2 faces successfully'', trained_count = Some 2\<rparr>"
proof -
  have a: "FACE_RECOGNITION_AVAILABLE lib0
      \<and> (\<exists>r\<in>set [rec_a, rec_missing, rec_e, rec_g]. enrollable_fr lib0 r)"
    by (simp add: lib0_enrollable) (simp add: lib0_def)
  have f: "length (filter (enrollable_fr lib0) [rec_a, rec_missing, rec_e, rec_g]) = 2"
    by (simp add: lib0_enrollable)
  have s: "str_nat 2 = ''2''" by code_simp
  show ?thesis
    using mp [OF conjunct1 [OF train_counts_enrollable_records [of lib0
        "[rec_a, rec_missing, rec_e, rec_g]" "(Written, Written)" gallery0 no_files]] a]
    unfolding f s by simp
qed



text \<open>
  C10. Every call of \<^verbatim>\<open>train_from_database\<close> empties the three attributes of the
  gallery first: its outcome is that of the call on the emptied object, whatever the
  gallery held before. After a failed run the encodings and the labels in memory are
  empty, and so is the identity mapping on the embedding path (and on the classifier
  path unless the write of its labels file was the failure).
\<close>

theorem train_discards_previous_gallery:
  "train_from_database L ws s fs recs =
     train_from_database L ws
       (s\<lparr>known_encodings := [], known_labels := [], student_data := Map.empty\<rparr>) fs recs
   \<and> (train_from_database L ws s fs recs = (r, s', fs') \<and> \<not> success r
        \<longrightarrow> known_encodings s' = [] \<and> known_labels s' = []
          \<and> (FACE_RECOGNITION_AVAILABLE L \<or> snd ws = Written \<longrightarrow> student_data s' = Map.empty))"
proof (intro conjI impI)
  show "train_from_database L ws s fs recs =
     train_from_database L ws
       (s\<lparr>known_encodings := [], known_labels := [], student_data := Map.empty\<rparr>) fs recs"
    by (simp add: train_from_database_def)
next
  let ?s0 = "s\<lparr>known_encodings := [], known_labels := [], student_data := Map.empty\<rparr>"
  assume a: "train_from_database L ws s fs recs = (r, s', fs') \<and> \<not> success r"
  have "s' = ?s0 \<or> (\<not> FACE_RECOGNITION_AVAILABLE L \<and> snd ws \<noteq> Written
          \<and> known_encodings s' = [] \<and> known_labels s' = [])"
  proof (cases "FACE_RECOGNITION_AVAILABLE L")
    case True
    with a have n: "length (filter (enrollable_fr L) recs) = 0"
      by (auto simp: train_from_database_def train_route_def train_fr_result Let_def
          simp del: str_nat.simps split: if_splits)
    then have "\<forall>r\<in>set recs. \<not> enrollable_fr L r" by (simp add: filter_empty_conv)
    then have "train_loop_fr L recs (?s0, 0) = (?s0, 0)" by (simp add: train_loop_fr_none)
    with a True n show ?thesis
      by (simp add: train_from_database_def train_route_def train_fr_result Let_def
          del: str_nat.simps)
  next
    case False
    obtain images labels m where l: "train_loop_cv L recs ([], [], Map.empty) = (images, labels, m)"
      by (cases "train_loop_cv L recs ([], [], Map.empty)")
    from a False l show ?thesis
      by (cases "snd ws")
        (auto simp: train_from_database_def train_route_def train_with_opencv_def write_file_def
          failed_def Let_def simp del: str_nat.simps contains.simps
          split: if_splits sum.splits write_outcome.splits)
  qed
  then show "known_encodings s' = []" "known_labels s' = []"
    "FACE_RECOGNITION_AVAILABLE L \<or> snd ws = Written \<Longrightarrow> student_data s' = Map.empty"
    by auto
qed

theorem train_discards_previous_gallery_witness:
  "train_from_database lib0 (Written, Written) gallery0 no_files [rec_missing, rec_e] =
     train_from_database lib0 (Written, Written)
       (gallery0\<lparr>known_encodings := [], known_labels := [], student_data := Map.empty\<rparr>)
       no_files [rec_missing, rec_e]
   \<and> known_encodings
        (fst (snd (train_from_database lib0 (Written, Written) gallery0 no_files
          [rec_missing, rec_e]))) = []
   \<and> known_encodings gallery0 = [0, 1]"
proof -
  obtain r s' fs' where t: "train_from_database lib0 (Written, Written) gallery0 no_files
      [rec_missing, rec_e] = (r, s', fs')"
    by (cases "train_from_database lib0 (Written, Written) gallery0 no_files [rec_missing, rec_e]")
      auto
  have n: "train_loop_fr lib0 [rec_missing, rec_e]
      (gallery0\<lparr>known_encodings := [], known_labels := [], student_data := Map.empty\<rparr>, 0)
      = (gallery0\<lparr>known_encodings := [], known_labels := [], student_data := Map.empty\<rparr>, 0)"
    using train_loop_fr_none [of "[rec_missing, rec_e]" lib0] lib0_enrollable(3,4) by simp
  have "\<not> success r"
    using t n
    by (auto simp: train_from_database_def train_route_def train_with_face_recognition_def lib0_def)
  with t have c: "train_from_database lib0 (Written, Written) gallery0 no_files
      [rec_missing, rec_e] = (r, s', fs') \<and> \<not> success r" by simp
  note T = train_discards_previous_gallery [of lib0 "(Written, Written)" gallery0 no_files
      "[rec_missing, rec_e]" r s' fs']
  have k: "known_encodings s' = []" using mp [OF conjunct2 [OF T] c] by simp
  have g: "known_encodings gallery0 = [0, 1]" by (simp add: gallery0_def)
  have k2: "known_encodings
        (fst (snd (train_from_database lib0 (Written, Written) gallery0 no_files
          [rec_missing, rec_e]))) = []"
    unfolding t using k by simp
  show ?thesis by (intro conjI) (rule conjunct1 [OF T], rule k2, rule g)
qed

section \<open>The face a training record enrolls\<close>

lemma max_area_first:
  "\<exists>pre post. f # fs = pre @ max_area f fs # post
     \<and> (\<forall>g\<in>set pre. area g < area (max_area f fs))
     \<and> (\<forall>g\<in>set post. area g \<le> area (max_area f fs))"
proof (induction fs arbitrary: f)
  case Nil
  show ?case by (rule exI [of _ "[]"], rule exI [of _ "[]"]) simp
next
  case (Cons g fs)
  show ?case
  proof (cases "area f < area g")
    case True
    then have M: "max_area f (g # fs) = max_area g fs" by simp
    obtain pre post where p: "g # fs = pre @ max_area g fs # post"
      "\<forall>h\<in>set pre. area h < area (max_area g fs)"
      "\<forall>h\<in>set post. area h \<le> area (max_area g fs)"
      using Cons.IH [of g] by blast
    have "g \<in> set (pre @ max_area g fs # post)" using p(1) by (metis list.set_intros(1))
    then have "area g \<le> area (max_area g fs)" using p(2,3) by fastforce
    with True have lt: "area f < area (max_area g fs)" by simp
    have e: "f # g # fs = (f # pre) @ max_area g fs # post" using p(1) by simp
    have "\<forall>h\<in>set (f # pre). area h < area (max_area g fs)" using lt p(2) by simp
    with e p(3) show ?thesis unfolding M by blast
  next
    case False
    then have M: "max_area f (g # fs) = max_area f fs" by simp
    obtain pre post where p: "f # fs = pre @ max_area f fs # post"
      "\<forall>h\<in>set pre. area h < area (max_area f fs)"
      "\<forall>h\<in>set post. area h \<le> area (max_area f fs)"
      using Cons.IH [of f] by blast
    show ?thesis
    proof (cases pre)
      case Nil
      have c: "f # fs = max_area f fs # post"
        using p(1) unfolding Nil by (simp only: append_Nil)
      have m: "max_area f fs = f" using c by (metis list.inject)
      have q: "post = fs" using c by (metis list.inject)
      have e: "f # g # fs = [] @ max_area f fs # (g # fs)" using m by simp
      have "\<forall>h\<in>set (g # fs). area h \<le> area (max_area f fs)"
        using p(3) q m False by simp
      with e show ?thesis unfolding M by (metis empty_iff empty_set)
    next
      case (Cons a pre')
      have c: "f # fs = a # (pre' @ max_area f fs # post)"
        using p(1) unfolding Cons by (simp only: append_Cons)
      have a: "a = f" using c by (metis list.inject)
      have r: "fs = pre' @ max_area f fs # post" using c by (metis list.inject)
      from p(2) Cons a have "area f < area (max_area f fs)" by simp
      with False have lt: "area g < area (max_area f fs)" by simp
      have e: "f # g # fs = (f # g # pre') @ max_area f fs # post"
        using r by (metis append_Cons)
      have "\<forall>h\<in>set (f # g # pre'). area h < area (max_area f fs)"
        using p(2) Cons a lt by simp
      with e p(3) show ?thesis unfolding M by blast
    qed
  qed
qed

lemma enroll_cv_largest:
  assumes "normalize_path (rec_imagePath st) = Some p" "p \<noteq> []" "path_exists L p"
    and "imread L p = Some img" "detectMultiScale L img = Inr (f # fs)"
    and "face_roi L img (max_area f fs) = Inr roi"
  shows "enroll_cv L st (images, labels, m) =
           (images @ [roi], labels @ [rec_labelId st],
            m(rec_labelId st \<mapsto>
               \<lparr>st_id = rec_id st, st_name = rec_name st, st_department = rec_department st\<rparr>))"
  using assms by (simp add: enroll_cv_def)

lemma enroll_fr_first:
  assumes "normalize_path (rec_imagePath st) = Some p" "p \<noteq> []" "path_exists L p"
    and "train_encodings L p = Inr (e # es)"
  shows "enroll_fr L st (s, n) =
         (s\<lparr>known_encodings := known_encodings s @ [e],
            known_labels := known_labels s @ [rec_labelId st],
            student_data := (student_data s)(rec_labelId st \<mapsto>
               \<lparr>st_id = rec_id st, st_name = rec_name st, st_department = rec_department st\<rparr>)\<rparr>,
          n + 1)"
  using assms by (simp add: enroll_fr_def)

text \<open>
  C6, as the spec states it, fails on the classifier path: of the two faces located in
  the image, in the order the detector returns them, the second and larger one is
  enrolled, not the first.
\<close>

theorem first_face_enrolled_counterexample:
  "imread lib_cv ''g.jpg'' = Some [(0, 0, 10, 10), (20, 20, 50, 50)]
   \<and> detectMultiScale lib_cv [(0, 0, 10, 10), (20, 20, 50, 50)]
       = Inr [(0, 0, 10, 10), (20, 20, 50, 50)]
   \<and> face_roi lib_cv [(0, 0, 10, 10), (20, 20, 50, 50)] (0, 0, 10, 10) = Inr (0, 0, 10, 10)
   \<and> fst (enroll_cv lib_cv rec_g ([], [], Map.empty)) = [(20, 20, 50, 50)]
   \<and> fst (enroll_cv lib_cv rec_g ([], [], Map.empty)) \<noteq> [(0, 0, 10, 10)]"
  by (simp add: enroll_cv_def normalize_path_def rec_g_def lib_cv_def lib0_def area_def
      wrap32_def)

text \<open>
  C6, amended. A training record enrolls exactly one face. The embedding path enrolls
  the first encoding the library returns and ignores the others. The classifier path
  enrolls the patch of the located face of the greatest area, the first such face in
  detection order, and ignores the others; that is the first located face exactly when
  no later face is larger. The area is the product of width and height on \<^verbatim>\<open>int32\<close>: it is
  the true product when that is below 2^31 and wraps around beyond.
\<close>

theorem one_face_enrolled_per_record:
  "(normalize_path (rec_imagePath st) = Some p \<and> p \<noteq> [] \<and> path_exists L p
      \<and> train_encodings L p = Inr (e # es)
      \<longrightarrow> enroll_fr L st (s, n) =
            (s\<lparr>known_encodings := known_encodings s @ [e],
               known_labels := known_labels s @ [rec_labelId st],
               student_data := (student_data s)(rec_labelId st \<mapsto>
                 \<lparr>st_id = rec_id st, st_name = rec_name st,
                  st_department = rec_department st\<rparr>)\<rparr>,
             n + 1))
   \<and> (normalize_path (rec_imagePath st) = Some p \<and> p \<noteq> [] \<and> path_exists L p
      \<and> imread L p = Some img \<and> detectMultiScale L img = Inr (f # fs)
      \<and> face_roi L img (max_area f fs) = Inr roi
      \<longrightarrow> enroll_cv L st (images, labels, m) =
            (images @ [roi], labels @ [rec_labelId st],
             m(rec_labelId st \<mapsto>
               \<lparr>st_id = rec_id st, st_name = rec_name st, st_department = rec_department st\<rparr>)))
   \<and> (\<exists>pre post. f # fs = pre @ max_area f fs # post
        \<and> (\<forall>g\<in>set pre. area g < area (max_area f fs))
        \<and> (\<forall>g\<in>set post. area g \<le> area (max_area f fs)))
   \<and> ((\<forall>g\<in>set fs. area g \<le> area f) \<longleftrightarrow> max_area f fs = f)
   \<and> area (x, y, w, h) = wrap32 (w * h)
   \<and> (0 \<le> w * h \<and> w * h < 2 ^ 31 \<longrightarrow> area (x, y, w, h) = w * h)"
proof (intro conjI impI)
  assume "normalize_path (rec_imagePath st) = Some p \<and> p \<noteq> [] \<and> path_exists L p
      \<and> train_encodings L p = Inr (e # es)"
  then show "enroll_fr L st (s, n) =
            (s\<lparr>known_encodings := known_encodings s @ [e],
               known_labels := known_labels s @ [rec_labelId st],
               student_data := (student_data s)(rec_labelId st \<mapsto>
                 \<lparr>st_id = rec_id st, st_name = rec_name st,
                  st_department = rec_department st\<rparr>)\<rparr>,
             n + 1)"
    using enroll_fr_first [of st p L e es s n] by simp
next
  assume "normalize_path (rec_imagePath st) = Some p \<and> p \<noteq> [] \<and> path_exists L p
      \<and> imread L p = Some img \<and> detectMultiScale L img = Inr (f # fs)
      \<and> face_roi L img (max_area f fs) = Inr roi"
  then show "enroll_cv L st (images, labels, m) =
            (images @ [roi], labels @ [rec_labelId st],
             m(rec_labelId st \<mapsto>
               \<lparr>st_id = rec_id st, st_name = rec_name st, st_department = rec_department st\<rparr>))"
    using enroll_cv_largest [of st p L img f fs roi images labels m] by simp
next
  show "\<exists>pre post. f # fs = pre @ max_area f fs # post
        \<and> (\<forall>g\<in>set pre. area g < area (max_area f fs))
        \<and> (\<forall>g\<in>set post. area g \<le> area (max_area f fs))"
    by (rule max_area_first)
next
  obtain pre post where p: "f # fs = pre @ max_area f fs # post"
    "\<forall>g\<in>set pre. area g < area (max_area f fs)"
    "\<forall>g\<in>set post. area g \<le> area (max_area f fs)"
    using max_area_first [of f fs] by blast
  show "(\<forall>g\<in>set fs. area g \<le> area f) \<longleftrightarrow> max_area f fs = f"
  proof
    assume a: "\<forall>g\<in>set fs. area g \<le> area f"
    show "max_area f fs = f"
    proof (cases pre)
      case Nil
      then have "f # fs = max_area f fs # post" using p(1) by (simp only: append_Nil)
      then show ?thesis by (metis list.inject)
    next
      case (Cons b pre')
      then have c: "f # fs = b # (pre' @ max_area f fs # post)"
        using p(1) by (simp only: append_Cons)
      then have b: "b = f" by (metis list.inject)
      from c have "fs = pre' @ max_area f fs # post" by (metis list.inject)
      then have "max_area f fs \<in> set fs" by (metis in_set_conv_decomp)
      with a have "area (max_area f fs) \<le> area f" by blast
      moreover have "area f < area (max_area f fs)" using p(2) Cons b by simp
      ultimately show ?thesis by simp
    qed
  next
    assume m: "max_area f fs = f"
    show "\<forall>g\<in>set fs. area g \<le> area f"
    proof
      fix g assume "g \<in> set fs"
      then have "g \<in> set (pre @ max_area f fs # post)" using p(1) by (metis list.set_intros(2))
      then have "area g \<le> area (max_area f fs)" using p(2,3) by fastforce
      with m show "area g \<le> area f" by simp
    qed
  qed
next
  show "area (x, y, w, h) = wrap32 (w * h)" by (simp add: area_def)
next
  assume "0 \<le> w * h \<and> w * h < 2 ^ 31"
  then show "area (x, y, w, h) = w * h" by (simp add: area_def wrap32_small)
qed

text \<open>
  Beyond 2^31 the key wraps: a face of 50000 by 50000 has the key -1794967296 and
  loses against a face of 10 by 10.
\<close>

lemma area_wraps:
  "area (0, 0, 50000, 50000) = - 1794967296"
  "max_area (0, 0, 10, 10) [(0, 0, 50000, 50000)] = (0, 0, 10, 10)"
  by (simp_all add: area_def wrap32_def)

theorem one_face_enrolled_per_record_witness:
  "enroll_fr lib0 rec_g (init_service, 0) =
     (init_service\<lparr>known_encodings := [1], known_labels := [Some 2],
        student_data := [Some 2 \<mapsto> bob]\<rparr>, 1)
   \<and> enroll_cv lib_cv rec_g ([], [], Map.empty) =
     ([(20, 20, 50, 50)], [Some 2], [Some 2 \<mapsto> bob])
   \<and> max_area (0, 0, 10, 10) [(20, 20, 50, 50)] \<noteq> (0, 0, 10, 10)"
proof -
  have m: "max_area (0, 0, 10, 10) [(20, 20, 50, 50)] = (20, 20, 50, 50)"
    by (simp add: area_def wrap32_def)
  have a: "normalize_path (rec_imagePath rec_g) = Some ''g.jpg'' \<and> ''g.jpg'' \<noteq> []
      \<and> path_exists lib0 ''g.jpg'' \<and> train_encodings lib0 ''g.jpg'' = Inr [1, 5]"
    by (simp add: normalize_path_def rec_g_def lib0_def)
  have b: "normalize_path (rec_imagePath rec_g) = Some ''g.jpg'' \<and> ''g.jpg'' \<noteq> []
      \<and> path_exists lib_cv ''g.jpg''
      \<and> imread lib_cv ''g.jpg'' = Some [(0, 0, 10, 10), (20, 20, 50, 50)]
      \<and> detectMultiScale lib_cv [(0, 0, 10, 10), (20, 20, 50, 50)]
          = Inr [(0, 0, 10, 10), (20, 20, 50, 50)]
      \<and> face_roi lib_cv [(0, 0, 10, 10), (20, 20, 50, 50)]
            (max_area (0, 0, 10, 10) [(20, 20, 50, 50)]) = Inr (20, 20, 50, 50)"
    unfolding m by (simp add: normalize_path_def rec_g_def lib_cv_def lib0_def)
  note T1 = one_face_enrolled_per_record [of rec_g "''g.jpg''" lib0 1 "[5]" init_service 0]
  note T2 = one_face_enrolled_per_record [of rec_g "''g.jpg''" lib_cv 1 "[5]" init_service 0
      "[(0, 0, 10, 10), (20, 20, 50, 50)]" "(0, 0, 10, 10)" "[(20, 20, 50, 50)]"
      "(20, 20, 50, 50)" "[]" "[]" Map.empty]
  have r1: "enroll_fr lib0 rec_g (init_service, 0) =
     (init_service\<lparr>known_encodings := [1], known_labels := [Some 2],
        student_data := [Some 2 \<mapsto> bob]\<rparr>, 1)"
    using mp [OF conjunct1 [OF T1] a] by (simp add: init_service_def rec_g_def bob_def)
  have r2: "enroll_cv lib_cv rec_g ([], [], Map.empty) =
     ([(20, 20, 50, 50)], [Some 2], [Some 2 \<mapsto> bob])"
    using mp [OF conjunct1 [OF conjunct2 [OF T2]] b] by (simp add: rec_g_def bob_def)
  have r3: "max_area (0, 0, 10, 10) [(20, 20, 50, 50)] \<noteq> (0, 0, 10, 10)"
    unfolding m by simp
  from r1 r2 r3 show ?thesis by (intro conjI)
qed

section \<open>Persistence, backend selection and images without a face\<close>

text \<open>
  C7, as the spec states it, fails: the two files are written in place, one after the
  other. A gallery of one face is on disk; a save of a gallery of two faces writes the
  encodings file and then fails to open the labels file; a fresh load reports success
  with two encodings and one label. When the dump of the labels file fails instead, the
  load reports failure and yet leaves the two encodings assigned.
\<close>

theorem persistence_atomic_counterexample:
  "load_model init_service
      (save_model (Written, OpenFails ''Permission denied'') gallery0
         (save_model (Written, Written) gallery_old no_files))
     = (True, init_service\<lparr>known_encodings := [0, 1], known_labels := [Some 1],
                student_data := [Some 1 \<mapsto> alice]\<rparr>)
   \<and> load_model init_service
      (save_model (Written, DumpFails ''No space left on device'') gallery0
         (save_model (Written, Written) gallery_old no_files))
     = (False, init_service\<lparr>known_encodings := [0, 1]\<rparr>)"
  by (simp add: load_model_def save_model_def write_file_def after_failed_write_def
      gallery0_def gallery_old_def no_files_def init_service_def)

text \<open>
  C7, amended. Saving writes the encodings file and then the labels file in place, with
  no temporary file and no swap. After a save whose two writes succeed, a load reports
  success and observes exactly the saved encodings, labels and identity mapping, in the
  service and in the frame recogniser; when either file is absent the load reports
  failure and leaves the object as it was; and a save whose first open fails leaves
  the files as they were.
\<close>

theorem save_then_load:
  "load_model s' (save_model (Written, Written) s fs) =
     (True, s'\<lparr>known_encodings := known_encodings s, known_labels := known_labels s,
              student_data := student_data s\<rparr>)
   \<and> (FACE_RECOGNITION_AVAILABLE L
        \<longrightarrow> rt_load_model L (save_model (Written, Written) s fs) =
            Inr (init_service\<lparr>known_encodings := known_encodings s,
                   known_labels := known_labels s, student_data := student_data s\<rparr>))
   \<and> (encodings_file fs = Absent \<or> labels_file fs = Absent \<longrightarrow> load_model s' fs = (False, s'))
   \<and> save_model (OpenFails e, w) s fs = fs"
  by (auto simp: load_model_def rt_load_model_def save_model_def write_file_def
      after_failed_write_def)

theorem save_then_load_witness:
  "load_model init_service (save_model (Written, Written) gallery0 no_files) = (True, gallery0)
   \<and> rt_load_model lib0 (save_model (Written, Written) gallery0 no_files) = Inr gallery0
   \<and> load_model gallery_old no_files = (False, gallery_old)"
proof -
  note T = save_then_load [of init_service gallery0 no_files lib0]
  have g: "init_service\<lparr>known_encodings := known_encodings gallery0,
      known_labels := known_labels gallery0, student_data := student_data gallery0\<rparr> = gallery0"
    by (simp add: init_service_def gallery0_def)
  have a: "FACE_RECOGNITION_AVAILABLE lib0" by (simp add: lib0_def)
  have r1: "load_model init_service (save_model (Written, Written) gallery0 no_files)
      = (True, gallery0)"
    using conjunct1 [OF T] unfolding g .
  have r2: "rt_load_model lib0 (save_model (Written, Written) gallery0 no_files) = Inr gallery0"
    using mp [OF conjunct1 [OF conjunct2 [OF T]] a] unfolding g .
  have n: "encodings_file no_files = Absent \<or> labels_file no_files = Absent"
    by (simp add: no_files_def)
  have r3: "load_model gallery_old no_files = (False, gallery_old)"
    using mp [OF conjunct1 [OF conjunct2 [OF conjunct2
      [OF save_then_load [of gallery_old gallery0 no_files lib0]]]] n] .
  from r1 r2 r3 show ?thesis by (intro conjI)
qed

lemma train_keeps_no_recognizer:
  assumes "FACE_RECOGNITION_AVAILABLE L" and "recognizer s = None"
  shows "recognizer (fst (snd (train_from_database L ws s fs recs))) = None"
proof -
  let ?s0 = "s\<lparr>known_encodings := [], known_labels := [], student_data := Map.empty\<rparr>"
  obtain s' c where l: "train_loop_fr L recs (?s0, 0) = (s', c)"
    by (cases "train_loop_fr L recs (?s0, 0)")
  have "recognizer s' = recognizer ?s0"
    using train_loop_fr_recognizer [of L recs ?s0 0] l by simp
  with assms l show ?thesis
    by (simp add: train_from_database_def train_route_def train_with_face_recognition_def
        del: str_nat.simps)
qed

lemma routes_without_recognizer:
  assumes "FACE_RECOGNITION_AVAILABLE L"
  shows "recognizer (fst st) = None \<Longrightarrow> Classifier \<notin> set (routes L st cs)"
proof (induction cs arbitrary: st)
  case Nil
  show ?case by simp
next
  case (Cons c cs)
  obtain s fs where st: "st = (s, fs)" by (cases st)
  have r: "call_route L s c \<noteq> Classifier"
    using assms Cons.prems st
    by (cases c) (auto simp: train_route_def recognize_route_def)
  have "recognizer (fst (call_step L (s, fs) c)) = None"
  proof (cases c)
    case (TrainCall recs ws)
    then show ?thesis
      using train_keeps_no_recognizer [OF assms, of s ws fs recs] Cons.prems st by simp
  next
    case (RecognizeCall p)
    then show ?thesis using Cons.prems st by simp
  qed
  then have "Classifier \<notin> set (routes L (call_step L (s, fs) c) cs)" by (rule Cons.IH)
  with r st show ?case by simp
qed

text \<open>
  C8. With the embedding library present, no call of a process reaches the classifier:
  in every sequence of training and recognition calls on a new service object each
  training call takes the embedding path and no recognition call takes the classifier
  path, and a frame recogniser built from any files takes it for no frame. The
  availability is a constant of the process.
\<close>

theorem embedding_backend_exclusive:
  assumes "FACE_RECOGNITION_AVAILABLE L"
  shows "Classifier \<notin> set (routes L (init_service, fs) cs)
         \<and> train_route L = Embedding
         \<and> (\<forall>s. rt_load_model L fs = Inr s \<longrightarrow> recognize_route L s p \<noteq> Classifier)"
proof (intro conjI allI impI)
  show "Classifier \<notin> set (routes L (init_service, fs) cs)"
    by (rule routes_without_recognizer [OF assms]) (simp add: init_service_def)
  show "train_route L = Embedding" using assms by (simp add: train_route_def)
  fix s assume "rt_load_model L fs = Inr s"
  then have "recognizer s = None"
    using assms
    by (auto simp: rt_load_model_def init_service_def
        split: if_splits disk_file.splits labels_pickle.splits)
  then show "recognize_route L s p \<noteq> Classifier" by (simp add: recognize_route_def)
qed

theorem embedding_backend_exclusive_witness:
  "routes lib0 (init_service, no_files)
      [RecognizeCall ''a.jpg'', TrainCall [rec_a] (Written, Written), RecognizeCall ''a.jpg'']
     = [NoModel, Embedding, Embedding]
   \<and> Classifier \<notin> set (routes lib0 (init_service, no_files)
      [RecognizeCall ''a.jpg'', TrainCall [rec_a] (Written, Written), RecognizeCall ''a.jpg''])
   \<and> train_route lib0 = Embedding"
proof -
  have a: "FACE_RECOGNITION_AVAILABLE lib0" by (simp add: lib0_def)
  note T = embedding_backend_exclusive [OF a, of no_files
      "[RecognizeCall ''a.jpg'', TrainCall [rec_a] (Written, Written), RecognizeCall ''a.jpg'']"
      "''a.jpg''"]
  have e: "enroll_fr lib0 rec_a
      (init_service\<lparr>known_encodings := [], known_labels := [], student_data := Map.empty\<rparr>, 0)
      = (init_service\<lparr>known_encodings := [0], known_labels := [Some 1],
           student_data := [Some 1 \<mapsto> alice]\<rparr>, 1)"
    by (simp add: enroll_fr_def normalize_path_def rec_a_def lib0_def init_service_def alice_def)
  have r: "routes lib0 (init_service, no_files)
      [RecognizeCall ''a.jpg'', TrainCall [rec_a] (Written, Written), RecognizeCall ''a.jpg'']
     = [NoModel, Embedding, Embedding]"
    by (simp add: train_from_database_def train_with_face_recognition_def e train_route_def
        recognize_route_def)
      (simp add: lib0_def init_service_def)
  from r conjunct1 [OF T] conjunct1 [OF conjunct2 [OF T]] show ?thesis by (intro conjI)
qed

text \<open>
  C9. For an existing image in which no face is found, the frame recogniser answers
  success with an empty list of faces and the service answers the failure No face
  detected, on the embedding path and on the classifier path alike. Both answers are
  results of the calls: every exception of the libraries is a value of the model, and
  the calls are total.
\<close>

theorem no_face_detected_results:
  "(path_exists L p \<and> FACE_RECOGNITION_AVAILABLE L \<and> known_encodings s \<noteq> []
      \<and> locate_encode L p = Inr []
      \<longrightarrow> recognize_frame L s p = Faces []
        \<and> recognize_face L s p = Failure ''No face detected'')
   \<and> (path_exists L p \<and> \<not> (FACE_RECOGNITION_AVAILABLE L \<and> known_encodings s \<noteq> [])
      \<and> recognizer s \<noteq> None \<and> imread L p = Some img
      \<longrightarrow> (rt_cascade_found L \<and> rt_detectMultiScale L img = Inr []
            \<longrightarrow> recognize_frame L s p = Faces [])
        \<and> (detectMultiScale L img = Inr []
            \<longrightarrow> recognize_face L s p = Failure ''No face detected''))"
  by (auto simp: recognize_frame_def recognize_face_def recognize_route_def
      rt_recognize_with_face_recognition_def recognize_with_face_recognition_def
      rt_recognize_with_opencv_def recognize_with_opencv_def)

theorem no_face_detected_results_witness:
  "recognize_frame lib0 gallery0 ''e.jpg'' = Faces []
   \<and> recognize_face lib0 gallery0 ''e.jpg'' = Failure ''No face detected''
   \<and> recognize_frame lib_cv gallery_cv ''e.jpg'' = Faces []
   \<and> recognize_face lib_cv gallery_cv ''e.jpg'' = Failure ''No face detected''"
proof -
  have a: "path_exists lib0 ''e.jpg'' \<and> FACE_RECOGNITION_AVAILABLE lib0
      \<and> known_encodings gallery0 \<noteq> [] \<and> locate_encode lib0 ''e.jpg'' = Inr []"
    by (simp add: lib0_def gallery0_def)
  have b: "path_exists lib_cv ''e.jpg''
      \<and> \<not> (FACE_RECOGNITION_AVAILABLE lib_cv \<and> known_encodings gallery_cv \<noteq> [])
      \<and> recognizer gallery_cv \<noteq> None \<and> imread lib_cv ''e.jpg'' = Some []"
    by (simp add: lib_cv_def lib0_def gallery_cv_def)
  have c: "rt_cascade_found lib_cv \<and> rt_detectMultiScale lib_cv [] = Inr []"
    by (simp add: lib_cv_def lib0_def)
  have d: "detectMultiScale lib_cv [] = Inr []" by (simp add: lib_cv_def lib0_def)
  note T1 = no_face_detected_results [of lib0 "''e.jpg''" gallery0 "[]"]
  note T2 = no_face_detected_results [of lib_cv "''e.jpg''" gallery_cv "[]"]
  note A = mp [OF conjunct1 [OF T1] a]
  note B = mp [OF conjunct2 [OF T2] b]
  from A mp [OF conjunct1 [OF B] c] mp [OF conjunct2 [OF B] d] show ?thesis by (intro conjI) simp_all
qed

end
